theory Spec2Isabelle
  imports Complex_Main
begin

section \<open>JavaScript values\<close>

text \<open>
  The writers compute on JavaScript numbers, which are IEEE 754 binary64 values: a
  finite value, an infinity or \<open>NaN\<close>. The sign of zero is not modelled (nothing the
  writers compute tells \<open>-0\<close> from \<open>0\<close>).
\<close>

datatype jsnum = Num real | PosInf | NegInf | NaN

text \<open>Rounding to the nearest integer, a tie going to the even one.\<close>

definition roundHalfEven :: "real \<Rightarrow> int" where
  "roundHalfEven q =
     (let f = \<lfloor>q\<rfloor>; d = q - of_int f
      in if d < 1 / 2 then f else if 1 / 2 < d then f + 1 else if even f then f else f + 1)"

text \<open>
  The binary64 value of an exact result: 53 significant bits, so a unit in the last place
  of \<open>2 ^ (E - 52)\<close> for a value in \<open>[2 ^ E, 2 ^ (E + 1))\<close>, never below \<open>2 ^ -1074\<close>
  (the subnormal numbers); round to nearest, ties to even; a result that reaches
  \<open>2 ^ 1024\<close> is an infinity.
\<close>

definition roundDouble :: "real \<Rightarrow> jsnum" where
  "roundDouble x =
     (if x = 0 then Num 0
      else
        (let e = max (\<lfloor>log 2 \<bar>x\<bar>\<rfloor> - 52) (- 1074);
             r = of_int (roundHalfEven (x / 2 powr of_int e)) * 2 powr of_int e
         in if 2 ^ 1024 \<le> r then PosInf else if r \<le> - (2 ^ 1024) then NegInf else Num r))"

text \<open>\<open>a + b\<close> and \<open>a * b\<close> on numbers.\<close>

fun jadd :: "jsnum \<Rightarrow> jsnum \<Rightarrow> jsnum" where
  "jadd (Num a) (Num b) = roundDouble (a + b)"
| "jadd NaN _ = NaN"
| "jadd _ NaN = NaN"
| "jadd PosInf NegInf = NaN"
| "jadd NegInf PosInf = NaN"
| "jadd PosInf _ = PosInf"
| "jadd _ PosInf = PosInf"
| "jadd NegInf _ = NegInf"
| "jadd _ NegInf = NegInf"

fun jmul :: "jsnum \<Rightarrow> jsnum \<Rightarrow> jsnum" where
  "jmul (Num a) (Num b) = roundDouble (a * b)"
| "jmul NaN _ = NaN"
| "jmul _ NaN = NaN"
| "jmul PosInf (Num b) = (if b = 0 then NaN else if 0 < b then PosInf else NegInf)"
| "jmul (Num a) PosInf = (if a = 0 then NaN else if 0 < a then PosInf else NegInf)"
| "jmul NegInf (Num b) = (if b = 0 then NaN else if 0 < b then NegInf else PosInf)"
| "jmul (Num a) NegInf = (if a = 0 then NaN else if 0 < a then NegInf else PosInf)"
| "jmul PosInf PosInf = PosInf"
| "jmul NegInf NegInf = PosInf"
| "jmul PosInf NegInf = NegInf"
| "jmul NegInf PosInf = NegInf"

text \<open>
  Reading a numeric array past its end gives \<open>undefined\<close>, which arithmetic and the
  \<open>Float64Array\<close> constructor turn into \<open>NaN\<close>.
\<close>

definition numAt :: "jsnum list \<Rightarrow> nat \<Rightarrow> jsnum" where
  "numAt xs i = (if i < length xs then xs ! i else NaN)"

text \<open>\<open>size[i]\<close>: \<open>None\<close> stands for \<open>undefined\<close>.\<close>

definition sizeAt :: "nat list \<Rightarrow> nat \<Rightarrow> nat option" where
  "sizeAt sz i = (if i < length sz then Some (sz ! i) else None)"

text \<open>Storing into a \<open>Uint32Array\<close>: \<open>undefined\<close> becomes 0, a number wraps.\<close>

definition toUint32 :: "nat option \<Rightarrow> nat" where
  "toUint32 v = (case v of None \<Rightarrow> 0 | Some n \<Rightarrow> n mod 2 ^ 32)"

text \<open>\<open>ToIntegerOrInfinity\<close> on an integer or \<open>NaN\<close> (\<open>None\<close>).\<close>

definition toInteger :: "int option \<Rightarrow> int" where
  "toInteger v = (case v of None \<Rightarrow> 0 | Some i \<Rightarrow> i)"

text \<open>
  \<open>TypedArray.prototype.slice(start, fin)\<close>: negative arguments count from the end,
  both are clamped to the array, and an empty range gives an empty array.
\<close>

definition jsSlice :: "'e list \<Rightarrow> int \<Rightarrow> int \<Rightarrow> 'e list" where
  "jsSlice xs start fin =
     (let len = int (length xs);
          k = (if start < 0 then max (len + start) 0 else min start len);
          final = (if fin < 0 then max (len + fin) 0 else min fin len)
      in take (nat (final - k)) (drop (nat k) xs))"

subsection \<open>Strings\<close>

definition digitChar :: "nat \<Rightarrow> char" where
  "digitChar d =
     (if d = 0 then CHR ''0'' else if d = 1 then CHR ''1'' else if d = 2 then CHR ''2''
      else if d = 3 then CHR ''3'' else if d = 4 then CHR ''4'' else if d = 5 then CHR ''5''
      else if d = 6 then CHR ''6'' else if d = 7 then CHR ''7'' else if d = 8 then CHR ''8''
      else CHR ''9'')"

text \<open>\<open>String(n)\<close> for a non-negative integer: its decimal digits.\<close>

fun stringOfNat :: "nat \<Rightarrow> string" where
  "stringOfNat n =
     (if n < 10 then [digitChar n] else stringOfNat (n div 10) @ [digitChar (n mod 10)])"

declare stringOfNat.simps [simp del]

definition stringOfInt :: "int \<Rightarrow> string" where
  "stringOfInt i = (if i < 0 then CHR ''-'' # stringOfNat (nat (- i)) else stringOfNat (nat i))"

text \<open>\<open>s.padStart(4, '0')\<close>.\<close>

definition padStart4 :: "string \<Rightarrow> string" where
  "padStart4 s = replicate (4 - length s) (CHR ''0'') @ s"

text \<open>
  \<open>s.replace(pat, rep)\<close> with a string pattern: the first occurrence only. The
  replacement here is a string of digits, so no \<open>$\<close> pattern occurs in it.
\<close>

fun replaceFirst :: "string \<Rightarrow> string \<Rightarrow> string \<Rightarrow> string" where
  "replaceFirst pat rep [] = (if pat = [] then rep else [])"
| "replaceFirst pat rep (c # cs) =
     (if take (length pat) (c # cs) = pat then rep @ drop (length pat) (c # cs)
      else c # replaceFirst pat rep cs)"

text \<open>\<open>s.startsWith(p)\<close>.\<close>

definition startsWith :: "string \<Rightarrow> string \<Rightarrow> bool" where
  "startsWith s p = (take (length p) s = p)"

text \<open>Truthiness of an optional string: \<open>undefined\<close> and the empty string are falsy.\<close>

definition truthyStr :: "string option \<Rightarrow> bool" where
  "truthyStr s = (case s of None \<Rightarrow> False | Some t \<Rightarrow> t \<noteq> [])"

section \<open>Images\<close>

text \<open>
  The errors the two modules can end with: the two \<open>Error\<close> objects they throw
  themselves, the \<open>RangeError\<close> of the typed array constructor, the \<open>TypeError\<close> of
  reading a property of \<open>null\<close>, and whatever an external encoder throws.
\<close>

datatype error =
    Error_InvalidImageDataFormat
  | Error_InputImageMustBe3D
  | RangeError_TypedArray
  | TypeError_NullData
  | EncoderError string

record image_type =
  dimension :: nat
  componentType :: string
  pixelType :: string
  components :: nat

text \<open>
  The \<open>data\<close> field of an image: \<open>null\<close>, a typed array (it has a \<open>slice\<close> method),
  or a typed array of an engine without \<open>slice\<close>, seen through its \<open>buffer\<close>:
  \<open>LegacyView buf off n\<close> is the view of \<open>n\<close> elements starting at element \<open>off\<close> of the
  buffer whose elements are \<open>buf\<close> (\<open>byteOffset = off * BYTES_PER_ELEMENT\<close>).
\<close>

datatype 'e pixel_data = NoData | TypedArray "'e list" | LegacyView "'e list" nat nat

text \<open>The elements an image's \<open>data\<close> holds.\<close>

fun elements :: "'e pixel_data \<Rightarrow> 'e list" where
  "elements NoData = []"
| "elements (TypedArray xs) = xs"
| "elements (LegacyView buf off n) = take n (drop off buf)"

record 'e image =
  imageType :: image_type
  name :: string
  origin :: "jsnum list"
  spacing :: "jsnum list"
  direction :: "jsnum list"
  imgSize :: "nat list"
  metadata :: "(string \<rightharpoonup> string) option"
  data :: "'e pixel_data"

record 'e slice2D = "'e image" +
  zPosition :: jsnum

text \<open>
  \<open>new TypedArrayConstructor(buffer, byteOffset, length)\<close>, in elements: a
  \<open>RangeError\<close> when the offset is negative or the view passes the end of the buffer;
  \<open>NaN\<close> is read as 0.
\<close>

definition typedArrayView :: "'e list \<Rightarrow> int option \<Rightarrow> int option \<Rightarrow> error + 'e list" where
  "typedArrayView buf start len =
     (let s = toInteger start; l = toInteger len
      in if s < 0 \<or> l < 0 \<or> int (length buf) < s + l then Inl RangeError_TypedArray
         else Inr (take (nat l) (drop (nat s) buf)))"

section \<open>Slice extraction (write-image-series.js)\<close>

definition extractSlice :: "'e image \<Rightarrow> int \<Rightarrow> error + 'e slice2D" where
  "extractSlice image3D sliceIndex =
     (let sz = imgSize image3D; sp = spacing image3D; og = origin image3D;
          dir = direction image3D; ity = imageType image3D;
          sliceSize = (case (sizeAt sz 0, sizeAt sz 1) of
                         (Some a, Some b) \<Rightarrow> Some (int a * int b)
                       | _ \<Rightarrow> None);
          componentsPerPixel = int (components ity);
          sliceOffset = map_option (\<lambda>s. sliceIndex * s * componentsPerPixel) sliceSize;
          sliceLength = map_option (\<lambda>s. s * componentsPerPixel) sliceSize;
          sliceEnd = map_option (\<lambda>s. sliceIndex * s * componentsPerPixel + s * componentsPerPixel)
                       sliceSize;
          sliceData =
            (case data image3D of
               TypedArray xs \<Rightarrow> Inr (jsSlice xs (toInteger sliceOffset) (toInteger sliceEnd))
             | LegacyView buf off n \<Rightarrow>
                 typedArrayView buf (map_option (\<lambda>so. int off + so) sliceOffset) sliceLength
             | NoData \<Rightarrow> Inl Error_InvalidImageDataFormat)
      in case sliceData of
           Inl e \<Rightarrow> Inl e
         | Inr d \<Rightarrow>
             (let slice2D =
                    \<lparr> imageType = \<lparr> dimension = 2, componentType = componentType ity,
                                    pixelType = pixelType ity, components = components ity \<rparr>,
                      name = ''slice_'' @ stringOfInt sliceIndex,
                      origin = [numAt og 0, numAt og 1],
                      spacing = [numAt sp 0, numAt sp 1],
                      direction = [numAt dir 0, numAt dir 1, numAt dir 3, numAt dir 4],
                      imgSize = [toUint32 (sizeAt sz 0), toUint32 (sizeAt sz 1)],
                      metadata = Some (case metadata image3D of None \<Rightarrow> Map.empty | Some m \<Rightarrow> m),
                      data = TypedArray d,
                      zPosition = NaN \<rparr>;
                  originX = jadd (numAt og 0)
                              (jmul (jmul (roundDouble (of_int sliceIndex)) (numAt sp 2)) (numAt dir 6));
                  originY = jadd (numAt og 1)
                              (jmul (jmul (roundDouble (of_int sliceIndex)) (numAt sp 2)) (numAt dir 7));
                  zPos = jadd (numAt og 2)
                           (jmul (jmul (roundDouble (of_int sliceIndex)) (numAt sp 2)) (numAt dir 8))
              in Inr (slice2D \<lparr> origin := [originX, originY], zPosition := zPos \<rparr>)))"

section \<open>Slice extraction with the volume in a store\<close>

text \<open>
  To say what \<open>extractSlice\<close> does to the volume it is given, the image objects and the
  array buffers are put in a store, and the function takes the address of the volume and
  returns the address of the slice with the new store. An array is a view of a buffer:
  its address, the element offset and the length. Three kinds of array are told apart by
  what \<open>slice\<close> does: a typed array copies the range into a buffer of its own, a Node
  \<open>Buffer\<close> returns a view of the same memory, and an array of an engine without \<open>slice\<close>
  is read through its \<open>buffer\<close> and copied. The arrays of numbers that an image holds
  (origin, spacing, direction, size) are values of its fields.
\<close>

datatype array_kind = Typed | NodeBuffer | Legacy

datatype data_ref = NullData | ArrayRef array_kind nat nat nat

record image_obj =
  objImageType :: image_type
  objName :: string
  objOrigin :: "jsnum list"
  objSpacing :: "jsnum list"
  objDirection :: "jsnum list"
  objSize :: "nat list"
  objMetadata :: "(string \<rightharpoonup> string) option"
  objData :: data_ref
  objZPosition :: "jsnum option"

record 'e store =
  buffers :: "'e list list"
  objects :: "image_obj list"

text \<open>The elements an array shows.\<close>

fun viewOf :: "'e store \<Rightarrow> data_ref \<Rightarrow> 'e list" where
  "viewOf st NullData = []"
| "viewOf st (ArrayRef kind a off n) = take n (drop off (buffers st ! a))"

text \<open>
  The first index and the count of \<open>slice(start, fin)\<close> on an array of \<open>n\<close> elements,
  as in \<open>jsSlice\<close>.
\<close>

definition sliceRange :: "nat \<Rightarrow> int \<Rightarrow> int \<Rightarrow> nat \<times> nat" where
  "sliceRange n start fin =
     (let len = int n;
          k = (if start < 0 then max (len + start) 0 else min start len);
          final = (if fin < 0 then max (len + fin) 0 else min fin len)
      in (nat k, nat (final - k)))"

text \<open>
  \<open>extractSlice\<close> on the store; \<open>image3D\<close> is the address of an image object of the
  store.
\<close>

definition extractSliceStore :: "'e store \<Rightarrow> nat \<Rightarrow> int \<Rightarrow> error + (nat \<times> 'e store)" where
  "extractSliceStore st image3D sliceIndex =
     (let obj = objects st ! image3D;
          sz = objSize obj; sp = objSpacing obj; og = objOrigin obj;
          dir = objDirection obj; ity = objImageType obj;
          sliceSize = (case (sizeAt sz 0, sizeAt sz 1) of
                         (Some a, Some b) \<Rightarrow> Some (int a * int b)
                       | _ \<Rightarrow> None);
          componentsPerPixel = int (components ity);
          sliceOffset = map_option (\<lambda>s. sliceIndex * s * componentsPerPixel) sliceSize;
          sliceLength = map_option (\<lambda>s. s * componentsPerPixel) sliceSize;
          sliceEnd = map_option (\<lambda>s. sliceIndex * s * componentsPerPixel + s * componentsPerPixel)
                       sliceSize;
          sliceData =
            (case objData obj of
               NullData \<Rightarrow> Inl Error_InvalidImageDataFormat
             | ArrayRef Typed a off n \<Rightarrow>
                 (let copy = jsSlice (viewOf st (objData obj)) (toInteger sliceOffset)
                               (toInteger sliceEnd)
                  in Inr (ArrayRef Typed (length (buffers st)) 0 (length copy),
                          buffers st @ [copy]))
             | ArrayRef NodeBuffer a off n \<Rightarrow>
                 (let (k, c) = sliceRange (length (viewOf st (objData obj)))
                                 (toInteger sliceOffset) (toInteger sliceEnd)
                  in Inr (ArrayRef NodeBuffer a (off + k) c, buffers st))
             | ArrayRef Legacy a off n \<Rightarrow>
                 (case typedArrayView (buffers st ! a)
                         (map_option (\<lambda>so. int off + so) sliceOffset) sliceLength of
                    Inl e \<Rightarrow> Inl e
                  | Inr copy \<Rightarrow>
                      Inr (ArrayRef Legacy (length (buffers st)) 0 (length copy),
                           buffers st @ [copy])))
      in case sliceData of
           Inl e \<Rightarrow> Inl e
         | Inr (d, bufs) \<Rightarrow>
             (let originX = jadd (numAt og 0)
                              (jmul (jmul (roundDouble (of_int sliceIndex)) (numAt sp 2)) (numAt dir 6));
                  originY = jadd (numAt og 1)
                              (jmul (jmul (roundDouble (of_int sliceIndex)) (numAt sp 2)) (numAt dir 7));
                  zPos = jadd (numAt og 2)
                           (jmul (jmul (roundDouble (of_int sliceIndex)) (numAt sp 2)) (numAt dir 8));
                  slice2D =
                    \<lparr> objImageType = \<lparr> dimension = 2, componentType = componentType ity,
                                       pixelType = pixelType ity, components = components ity \<rparr>,
                      objName = ''slice_'' @ stringOfInt sliceIndex,
                      objOrigin = [originX, originY],
                      objSpacing = [numAt sp 0, numAt sp 1],
                      objDirection = [numAt dir 0, numAt dir 1, numAt dir 3, numAt dir 4],
                      objSize = [toUint32 (sizeAt sz 0), toUint32 (sizeAt sz 1)],
                      objMetadata =
                        Some (case objMetadata obj of None \<Rightarrow> Map.empty | Some m \<Rightarrow> m),
                      objData = d,
                      objZPosition = Some zPos \<rparr>
              in Inr (length (objects st), \<lparr> buffers = bufs, objects = objects st @ [slice2D] \<rparr>)))"

text \<open>
  The pixel buffer of the slice that a call returned, read in the store that the call
  left.
\<close>

definition returnedView :: "error + nat \<times> 'e store \<Rightarrow> error + 'e list" where
  "returnedView r =
     map_sum id (\<lambda>(s, st'). viewOf st' (objData (objects st' ! s))) r"

text \<open>The image an object of the store stands for, its data read out of the store.\<close>

fun loadData :: "'e store \<Rightarrow> data_ref \<Rightarrow> 'e pixel_data" where
  "loadData st NullData = NoData"
| "loadData st (ArrayRef Legacy a off n) = LegacyView (buffers st ! a) off n"
| "loadData st (ArrayRef kind a off n) = TypedArray (take n (drop off (buffers st ! a)))"

definition loadImage :: "'e store \<Rightarrow> image_obj \<Rightarrow> 'e image" where
  "loadImage st obj =
     \<lparr> imageType = objImageType obj, name = objName obj, origin = objOrigin obj,
       spacing = objSpacing obj, direction = objDirection obj, imgSize = objSize obj,
       metadata = objMetadata obj, data = loadData st (objData obj) \<rparr>"

section \<open>The environment\<close>

text \<open>
  What the program reads from outside, made explicit. \<open>dateNow env k\<close> and
  \<open>mathRandom env k\<close> are the values of \<open>Date.now()\<close> and of
  \<open>Math.floor(Math.random() * 1000000)\<close> in the \<open>k\<close>-th call of \<open>generateUID\<close>;
  \<open>toFixed6\<close> is \<open>Number.prototype.toFixed(6)\<close>; \<open>gdcmWriteImage\<close> is the ITK-Wasm
  GDCM writer (its \<open>serializedImage.data\<close>) and \<open>dcmjsWrite\<close> is \<open>DicomDict.write\<close>
  of dcmjs, either of which may throw; \<open>toISOString\<close> and \<open>toTimeString\<close> are the
  renderings of \<open>new Date()\<close>. Console output is not modelled.
\<close>

type_synonym bytes = "nat list"

datatype 'e dcm_value =
    VStr string
  | VNum jsnum
  | VInt int
  | VPersonName string
  | VBuffer "'e list"
  | VUndefined

type_synonym 'e dataset = "(string \<times> string \<times> 'e dcm_value list) list"

record 'e env =
  dateNow :: "nat \<Rightarrow> nat"
  mathRandom :: "nat \<Rightarrow> nat"
  toFixed6 :: "jsnum \<Rightarrow> string"
  gdcmWriteImage :: "'e slice2D \<Rightarrow> string \<Rightarrow> bool \<Rightarrow> error + bytes"
  dcmjsWrite :: "'e dataset \<Rightarrow> error + bytes"
  toISOString :: string
  toTimeString :: string

text \<open>
  The state a run threads: how many times \<open>generateUID\<close> has been called, and what has
  been handed to the external encoder so far, in call order.
\<close>

record 'c state =
  uidCalls :: nat
  encoderCalls :: "'c list"

text \<open>
  \<open>generateUID\<close> (the same function in both modules), called when \<open>k\<close> calls have been
  made; it returns the identifier and the new count.
\<close>

definition generateUID :: "('e, 'x) env_scheme \<Rightarrow> nat \<Rightarrow> string \<times> nat" where
  "generateUID env k =
     (''1.2.826.0.1.3680043.8.498.'' @ stringOfNat (dateNow env k) @ ''.''
        @ stringOfNat (mathRandom env k), Suc k)"

section \<open>Series writer with the GDCM encoder (write-image-series.js)\<close>

record slice_options =
  seriesDescription :: "string option"
  seriesNumber :: "int option"
  instanceNumberStart :: "int option"
  modality :: "string option"
  seriesInstanceUID :: "string option"

record options = slice_options +
  fileNamePattern :: "string option"
  useCompression :: "bool option"

text \<open>
  \<open>createDicomMetadataForSlice\<close>. The metadata map is a JavaScript \<open>Map\<close> from tag to
  string; \<open>originalMetadata = None\<close> is \<open>undefined\<close>. The last argument and the second
  result are the \<open>generateUID\<close> call count.
\<close>

definition createDicomMetadataForSlice ::
  "('e, 'x) env_scheme \<Rightarrow> (string \<rightharpoonup> string) option \<Rightarrow> nat \<Rightarrow> nat \<Rightarrow> 'e slice2D
     \<Rightarrow> 'o slice_options_scheme \<Rightarrow> nat \<Rightarrow> (string \<rightharpoonup> string) \<times> nat" where
  "createDicomMetadataForSlice env originalMetadata sliceIndex totalSlices slice2D opts k =
     (let m0 = (case originalMetadata of None \<Rightarrow> Map.empty | Some m \<Rightarrow> m);
          (m1, k1) =
            (if m0 ''0020|000e'' = None then
               (if truthyStr (seriesInstanceUID opts)
                then (m0(''0020|000e'' \<mapsto> the (seriesInstanceUID opts)), k)
                else (let (u, k') = generateUID env k in (m0(''0020|000e'' \<mapsto> u), k')))
             else (m0, k));
          (sop, k2) = generateUID env k1;
          m2 = m1(''0008|0018'' \<mapsto> sop);
          instanceNumber = int sliceIndex +
            (case instanceNumberStart opts of
               None \<Rightarrow> 1
             | Some s \<Rightarrow> if s \<noteq> 0 then s else 1);
          m3 = m2(''0020|0013'' \<mapsto> stringOfInt instanceNumber);
          imagePosition = toFixed6 env (numAt (origin slice2D) 0) @ [CHR 0x5C]
            @ toFixed6 env (numAt (origin slice2D) 1) @ [CHR 0x5C]
            @ toFixed6 env (zPosition slice2D);
          m4 = m3(''0020|0032'' \<mapsto> imagePosition);
          m5 = m4(''0020|1041'' \<mapsto> toFixed6 env (zPosition slice2D));
          m6 = (if truthyStr (seriesDescription opts)
                then m5(''0008|103e'' \<mapsto> the (seriesDescription opts)) else m5);
          m7 = (case seriesNumber opts of
                  None \<Rightarrow> m6
                | Some n \<Rightarrow> m6(''0020|0011'' \<mapsto> stringOfInt n));
          m8 = m7(''0020|1002'' \<mapsto> stringOfNat totalSlices);
          m9 = (if m8 ''0008|0060'' = None \<and> truthyStr (modality opts)
                then m8(''0008|0060'' \<mapsto> the (modality opts)) else m8)
      in (m9, k2))"

record written_file =
  filename :: string
  blob :: bytes
  sliceIndex :: nat
  fileData :: bytes

text \<open>What one call of the GDCM writer receives: the slice, the file name, the compression flag.\<close>

type_synonym 'e gdcm_call = "'e slice2D \<times> string \<times> bool"

text \<open>
  The \<open>for\<close> loop both writers run over the slice indices, in ascending order: the body
  either throws, which ends the run, or gives the entry pushed onto \<open>writtenFiles\<close>.
\<close>

fun forSlices ::
  "(nat \<Rightarrow> 'c state \<Rightarrow> (error + written_file) \<times> 'c state) \<Rightarrow> nat list \<Rightarrow> written_file list
     \<Rightarrow> 'c state \<Rightarrow> (error + written_file list) \<times> 'c state" where
  "forSlices body [] writtenFiles st = (Inr writtenFiles, st)"
| "forSlices body (sliceIdx # rest) writtenFiles st =
     (case body sliceIdx st of
        (Inl e, st') \<Rightarrow> (Inl e, st')
      | (Inr f, st') \<Rightarrow> forSlices body rest (writtenFiles @ [f]) st')"

text \<open>The body of the loop of \<open>writeImageAsDicomSeries\<close>.\<close>

definition seriesSliceBody ::
  "('e, 'x) env_scheme \<Rightarrow> 'e image \<Rightarrow> slice_options \<Rightarrow> string \<Rightarrow> bool \<Rightarrow> nat \<Rightarrow> nat
     \<Rightarrow> 'e gdcm_call state \<Rightarrow> (error + written_file) \<times> 'e gdcm_call state" where
  "seriesSliceBody env image3D opts pat compress numSlices sliceIdx st =
     (case extractSlice image3D (int sliceIdx) of
        Inl e \<Rightarrow> (Inl e, st)
      | Inr slice2D \<Rightarrow>
          (let (md, k) = createDicomMetadataForSlice env (metadata image3D) sliceIdx numSlices
                           slice2D opts (uidCalls st);
               slice2D' = slice2D \<lparr> metadata := Some md \<rparr>;
               fname = replaceFirst ''%04d'' (padStart4 (stringOfNat sliceIdx)) pat;
               st' = st \<lparr> uidCalls := k,
                          encoderCalls := encoderCalls st @ [(slice2D', fname, compress)] \<rparr>
           in case gdcmWriteImage env slice2D' fname compress of
                Inl e \<Rightarrow> (Inl e, st')
              | Inr imageData \<Rightarrow>
                  (Inr \<lparr> filename = fname, blob = imageData, sliceIndex = sliceIdx,
                         fileData = imageData \<rparr>, st')))"

definition writeImageAsDicomSeries ::
  "('e, 'x) env_scheme \<Rightarrow> 'e image \<Rightarrow> options \<Rightarrow> 'e gdcm_call state
     \<Rightarrow> (error + written_file list) \<times> 'e gdcm_call state" where
  "writeImageAsDicomSeries env image3D options st =
     (if dimension (imageType image3D) \<noteq> 3 then (Inl Error_InputImageMustBe3D, st)
      else
        (let pat = (case fileNamePattern options of None \<Rightarrow> ''slice_%04d.dcm'' | Some p \<Rightarrow> p);
             descr = (case seriesDescription options of
                        None \<Rightarrow> ''Medical Image Series'' | Some d \<Rightarrow> d);
             snum = (case seriesNumber options of None \<Rightarrow> 1 | Some n \<Rightarrow> n);
             start = (case instanceNumberStart options of None \<Rightarrow> 1 | Some s \<Rightarrow> s);
             modal = (case modality options of None \<Rightarrow> ''OT'' | Some m \<Rightarrow> m);
             (suid, k) = (case seriesInstanceUID options of
                            None \<Rightarrow> generateUID env (uidCalls st)
                          | Some u \<Rightarrow> (u, uidCalls st));
             compress = (case useCompression options of None \<Rightarrow> False | Some c \<Rightarrow> c);
             numSlices = (case sizeAt (imgSize image3D) 2 of None \<Rightarrow> 0 | Some n \<Rightarrow> n)
         in forSlices
              (seriesSliceBody env image3D
                 \<lparr> seriesDescription = Some descr, seriesNumber = Some snum,
                   instanceNumberStart = Some start, modality = Some modal,
                   seriesInstanceUID = Some suid \<rparr>
                 pat compress numSlices)
              [0..<numSlices] [] (st \<lparr> uidCalls := k \<rparr>)))"

section \<open>Series writer with dcmjs (write-dicom-dcmjs.js)\<close>

text \<open>
  The lookup table of \<open>getBitsAllocated\<close>. The component type is one of ITK's names
  (\<open>int8\<close> ... \<open>float64\<close>); property names that a JavaScript object inherits are not
  modelled.
\<close>

definition bitsMap :: "(string \<times> int) list" where
  "bitsMap = [(''int8'', 8), (''uint8'', 8), (''int16'', 16), (''uint16'', 16),
              (''int32'', 32), (''uint32'', 32)]"

definition getBitsAllocated :: "string \<Rightarrow> int" where
  "getBitsAllocated ct =
     (case map_of bitsMap ct of None \<Rightarrow> 16 | Some b \<Rightarrow> if b \<noteq> 0 then b else 16)"

definition getBitsStored :: "string \<Rightarrow> int" where
  "getBitsStored ct = getBitsAllocated ct"

definition isSignedType :: "string \<Rightarrow> bool" where
  "isSignedType ct = (startsWith ct ''int'' \<and> \<not> startsWith ct ''uint'')"

definition getPixelDataVR :: "string \<Rightarrow> string" where
  "getPixelDataVR ct =
     (let bits = getBitsAllocated ct
      in if bits \<le> 8 then ''OB'' else if bits \<le> 16 then ''OW'' else ''OL'')"

text \<open>The \<open>metadata\<close> argument of \<open>writeDicomSlice\<close>.\<close>

record dcmjs_metadata =
  mdSeriesInstanceUID :: string
  sopInstanceUID :: string
  instanceNumber :: int
  imagePosition :: "jsnum list"
  sliceLocation :: jsnum
  mdSeriesDescription :: string
  mdSeriesNumber :: int
  mdModality :: string
  studyInstanceUID :: string
  studyDate :: string
  studyTime :: string

text \<open>An element of a numeric array as a value of a data set: \<open>undefined\<close> past its end.\<close>

definition valAt :: "jsnum list \<Rightarrow> nat \<Rightarrow> 'e dcm_value" where
  "valAt xs i = (if i < length xs then VNum (xs ! i) else VUndefined)"

definition sizeVal :: "nat list \<Rightarrow> nat \<Rightarrow> 'e dcm_value" where
  "sizeVal sz i = (case sizeAt sz i of None \<Rightarrow> VUndefined | Some n \<Rightarrow> VInt (int n))"

text \<open>
  The \<open>dataset\<close> object that \<open>writeDicomSlice\<close> builds: tag, \<open>vr\<close>, \<open>Value\<close>, in the
  order of the source. Its last entry reads \<open>slice2D.data.buffer\<close>, a \<open>TypeError\<close> when
  \<open>data\<close> is \<open>null\<close>.
\<close>

definition dicomDataset :: "'e slice2D \<Rightarrow> dcmjs_metadata \<Rightarrow> error + 'e dataset" where
  "dicomDataset slice2D md =
     (let ity = imageType slice2D; ct = componentType ity
      in case (case data slice2D of
                 NoData \<Rightarrow> Inl TypeError_NullData
               | TypedArray xs \<Rightarrow> Inr xs
               | LegacyView buf off n \<Rightarrow> Inr buf) of
           Inl e \<Rightarrow> Inl e
         | Inr buffer \<Rightarrow> Inr
            [(''00080016'', ''UI'', [VStr ''1.2.840.10008.5.1.4.1.1.4'']),
             (''00080018'', ''UI'', [VStr (sopInstanceUID md)]),
             (''00100010'', ''PN'', [VPersonName ''Anonymous'']),
             (''00100020'', ''LO'', [VStr ''ANON123'']),
             (''0020000D'', ''UI'', [VStr (studyInstanceUID md)]),
             (''00080020'', ''DA'', [VStr (studyDate md)]),
             (''00080030'', ''TM'', [VStr (studyTime md)]),
             (''0020000E'', ''UI'', [VStr (mdSeriesInstanceUID md)]),
             (''00080060'', ''CS'', [VStr (mdModality md)]),
             (''0008103E'', ''LO'', [VStr (mdSeriesDescription md)]),
             (''00200011'', ''IS'', [VInt (mdSeriesNumber md)]),
             (''00200013'', ''IS'', [VInt (instanceNumber md)]),
             (''00200032'', ''DS'', map VNum (imagePosition md)),
             (''00201041'', ''DS'', [VNum (sliceLocation md)]),
             (''00200037'', ''DS'',
                [valAt (direction slice2D) 0, valAt (direction slice2D) 1, VNum (Num 0),
                 valAt (direction slice2D) 2, valAt (direction slice2D) 3, VNum (Num 0)]),
             (''00280002'', ''US'', [VInt (int (components ity))]),
             (''00280004'', ''CS'',
                [VStr (if components ity = 1 then ''MONOCHROME2'' else ''RGB'')]),
             (''00280010'', ''US'', [sizeVal (imgSize slice2D) 1]),
             (''00280011'', ''US'', [sizeVal (imgSize slice2D) 0]),
             (''00280100'', ''US'', [VInt (getBitsAllocated ct)]),
             (''00280101'', ''US'', [VInt (getBitsStored ct)]),
             (''00280102'', ''US'', [VInt (getBitsStored ct - 1)]),
             (''00280103'', ''US'', [VInt (if isSignedType ct then 1 else 0)]),
             (''00280030'', ''DS'', [valAt (spacing slice2D) 1, valAt (spacing slice2D) 0]),
             (''7FE00010'', getPixelDataVR ct, [VBuffer buffer])])"

definition writeDicomSlice ::
  "('e, 'x) env_scheme \<Rightarrow> 'e slice2D \<Rightarrow> dcmjs_metadata \<Rightarrow> error + bytes" where
  "writeDicomSlice env slice2D md =
     (case dicomDataset slice2D md of
        Inl e \<Rightarrow> Inl e
      | Inr dataset \<Rightarrow> dcmjsWrite env dataset)"

text \<open>
  The body of the loop of \<open>writeImageAsDicomSeriesWithDcmjs\<close>. The state records the
  pair of slice and metadata given to \<open>writeDicomSlice\<close>.
\<close>

type_synonym 'e dcmjs_call = "'e slice2D \<times> dcmjs_metadata"

definition dcmjsSliceBody ::
  "('e, 'x) env_scheme \<Rightarrow> 'e image \<Rightarrow> string \<Rightarrow> string \<Rightarrow> int \<Rightarrow> int \<Rightarrow> string
     \<Rightarrow> string \<Rightarrow> string \<Rightarrow> string \<Rightarrow> string \<Rightarrow> nat
     \<Rightarrow> 'e dcmjs_call state \<Rightarrow> (error + written_file) \<times> 'e dcmjs_call state" where
  "dcmjsSliceBody env image3D pat descr snum start modal study series sdate stime sliceIdx st =
     (case extractSlice image3D (int sliceIdx) of
        Inl e \<Rightarrow> (Inl e, st)
      | Inr slice2D \<Rightarrow>
          (let (sop, k) = generateUID env (uidCalls st);
               md = \<lparr> mdSeriesInstanceUID = series, sopInstanceUID = sop,
                      instanceNumber = int sliceIdx + start,
                      imagePosition = [numAt (origin slice2D) 0, numAt (origin slice2D) 1,
                                       zPosition slice2D],
                      sliceLocation = zPosition slice2D,
                      mdSeriesDescription = descr, mdSeriesNumber = snum, mdModality = modal,
                      studyInstanceUID = study, studyDate = sdate, studyTime = stime \<rparr>;
               st' = st \<lparr> uidCalls := k, encoderCalls := encoderCalls st @ [(slice2D, md)] \<rparr>
           in case writeDicomSlice env slice2D md of
                Inl e \<Rightarrow> (Inl e, st')
              | Inr dicomBuffer \<Rightarrow>
                  (Inr \<lparr> filename = replaceFirst ''%04d'' (padStart4 (stringOfNat sliceIdx)) pat,
                         blob = dicomBuffer, sliceIndex = sliceIdx, fileData = dicomBuffer \<rparr>,
                   st')))"

definition writeImageAsDicomSeriesWithDcmjs ::
  "('e, 'x) env_scheme \<Rightarrow> 'e image \<Rightarrow> options \<Rightarrow> 'e dcmjs_call state
     \<Rightarrow> (error + written_file list) \<times> 'e dcmjs_call state" where
  "writeImageAsDicomSeriesWithDcmjs env image3D options st =
     (let pat = (case fileNamePattern options of None \<Rightarrow> ''slice_%04d.dcm'' | Some p \<Rightarrow> p);
          descr = (case seriesDescription options of
                     None \<Rightarrow> ''Medical Image Series'' | Some d \<Rightarrow> d);
          snum = (case seriesNumber options of None \<Rightarrow> 1 | Some n \<Rightarrow> n);
          start = (case instanceNumberStart options of None \<Rightarrow> 1 | Some s \<Rightarrow> s);
          modal = (case modality options of None \<Rightarrow> ''OT'' | Some m \<Rightarrow> m);
          numSlices = (case sizeAt (imgSize image3D) 2 of None \<Rightarrow> 0 | Some n \<Rightarrow> n);
          (study, k1) = generateUID env (uidCalls st);
          (series, k2) = generateUID env k1;
          sdate = filter (\<lambda>c. c \<noteq> CHR ''-'') (take 10 (toISOString env));
          stime = filter (\<lambda>c. c \<noteq> CHR '':'') (take 8 (toTimeString env))
      in forSlices
           (dcmjsSliceBody env image3D pat descr snum start modal study series sdate stime)
           [0..<numSlices] [] (st \<lparr> uidCalls := k2 \<rparr>))"

section \<open>Notions used to state the properties\<close>

text \<open>
  The position formula as the specification words it, for axis \<open>a\<close>:
  \<open>origin[a] + index * spacing[2] * direction[a*3 + 2]\<close>.
\<close>

definition specPosition :: "('e, 'z) image_scheme \<Rightarrow> int \<Rightarrow> nat \<Rightarrow> jsnum" where
  "specPosition v i a =
     jadd (numAt (origin v) a)
       (jmul (jmul (roundDouble (of_int i)) (numAt (spacing v) 2)) (numAt (direction v) (a * 3 + 2)))"

text \<open>
  The invariant of a volume in the store: its address is an object's, it has three
  dimensions, its array is inside a buffer of the store, and the array has
  \<open>size[0] * size[1] * size[2] * components\<close> elements.
\<close>

definition validVolumeAt :: "'e store \<Rightarrow> nat \<Rightarrow> bool" where
  "validVolumeAt st v =
     (v < length (objects st) \<and>
      dimension (objImageType (objects st ! v)) = 3 \<and>
      length (objSize (objects st ! v)) = 3 \<and>
      (case objData (objects st ! v) of
         NullData \<Rightarrow> False
       | ArrayRef kind a off n \<Rightarrow>
           a < length (buffers st) \<and> off + n \<le> length (buffers st ! a) \<and>
           n = objSize (objects st ! v) ! 0 * objSize (objects st ! v) ! 1
                 * objSize (objects st ! v) ! 2 * components (objImageType (objects st ! v))))"

text \<open>The component types of an ITK image, and their names.\<close>

datatype component_kind =
  Int8 | UInt8 | Int16 | UInt16 | Int32 | UInt32 | Int64 | UInt64 | Float32 | Float64

fun kindName :: "component_kind \<Rightarrow> string" where
  "kindName Int8 = ''int8''"
| "kindName UInt8 = ''uint8''"
| "kindName Int16 = ''int16''"
| "kindName UInt16 = ''uint16''"
| "kindName Int32 = ''int32''"
| "kindName UInt32 = ''uint32''"
| "kindName Int64 = ''int64''"
| "kindName UInt64 = ''uint64''"
| "kindName Float32 = ''float32''"
| "kindName Float64 = ''float64''"

text \<open>The map \<open>new Map(originalMetadata || new Map())\<close> starts from.\<close>

definition baseMap :: "(string \<rightharpoonup> string) option \<Rightarrow> (string \<rightharpoonup> string)" where
  "baseMap originalMetadata = (case originalMetadata of None \<Rightarrow> Map.empty | Some m \<Rightarrow> m)"

text \<open>The number of iterations of either writer's loop: \<open>size[2]\<close>, none when it is
  \<open>undefined\<close>.\<close>

definition sliceCount :: "('e, 'z) image_scheme \<Rightarrow> nat" where
  "sliceCount v = (case sizeAt (imgSize v) 2 of None \<Rightarrow> 0 | Some n \<Rightarrow> n)"

text \<open>The value of a tag in the metadata of the slice a GDCM call received.\<close>

definition gdcmTag :: "string \<Rightarrow> 'e gdcm_call \<Rightarrow> string option" where
  "gdcmTag tag c = (case metadata (fst c) of None \<Rightarrow> None | Some m \<Rightarrow> m tag)"

text \<open>The entry of a tag in the data set built for a call of \<open>writeDicomSlice\<close>.\<close>

definition dcmjsTag :: "string \<Rightarrow> 'e dcmjs_call \<Rightarrow> (string \<times> 'e dcm_value list) option" where
  "dcmjsTag tag c =
     (case dicomDataset (fst c) (snd c) of Inl e \<Rightarrow> None | Inr ds \<Rightarrow> map_of ds tag)"

text \<open>The \<open>(Date.now(), random)\<close> pair the \<open>k\<close>-th call of \<open>generateUID\<close> reads.\<close>

definition uidDraw :: "('e, 'x) env_scheme \<Rightarrow> nat \<Rightarrow> nat \<times> nat" where
  "uidDraw env k = (dateNow env k, mathRandom env k)"

subsection \<open>Concrete inputs\<close>

definition identity3 :: "jsnum list" where
  "identity3 = [Num 1, Num 0, Num 0, Num 0, Num 1, Num 0, Num 0, Num 0, Num 1]"

definition exampleVolume :: "nat image" where
  "exampleVolume =
     \<lparr> imageType = \<lparr> dimension = 3, componentType = ''uint8'', pixelType = ''Scalar'',
                     components = 1 \<rparr>,
       name = ''volume'',
       origin = [Num 0, Num 0, Num 0],
       spacing = [Num 1, Num 1, Num 2],
       direction = identity3,
       imgSize = [2, 2, 4],
       metadata = None,
       data = TypedArray [0, 1, 2, 3, 4, 5, 6, 7, 8, 9, 10, 11, 12, 13, 14, 15] \<rparr>"

text \<open>A volume turned a quarter about its second axis: the rows of the matrix are
  \<open>(0,0,1)\<close>, \<open>(0,1,0)\<close>, \<open>(-1,0,0)\<close>.\<close>

definition rotatedVolume :: "nat image" where
  "rotatedVolume =
     exampleVolume \<lparr> spacing := [Num 1, Num 1, Num 1],
                     direction := [Num 0, Num 0, Num 1, Num 0, Num 1, Num 0,
                                   Num (- 1), Num 0, Num 0] \<rparr>"

text \<open>A two-dimensional image, as ITK gives it.\<close>

definition flatImage :: "nat image" where
  "flatImage =
     \<lparr> imageType = \<lparr> dimension = 2, componentType = ''uint8'', pixelType = ''Scalar'',
                     components = 1 \<rparr>,
       name = ''image'',
       origin = [Num 0, Num 0],
       spacing = [Num 1, Num 1],
       direction = [Num 1, Num 0, Num 0, Num 1],
       imgSize = [2, 2],
       metadata = None,
       data = TypedArray [1, 2, 3, 4] \<rparr>"

text \<open>Slice 3 of \<open>exampleVolume\<close>.\<close>

definition exampleSlice3 :: "nat slice2D" where
  "exampleSlice3 =
     \<lparr> imageType = \<lparr> dimension = 2, componentType = ''uint8'', pixelType = ''Scalar'',
                     components = 1 \<rparr>,
       name = ''slice_3'', origin = [Num 0, Num 0], spacing = [Num 1, Num 1],
       direction = [Num 1, Num 0, Num 0, Num 1], imgSize = [2, 2],
       metadata = Some Map.empty, data = TypedArray [12, 13, 14, 15],
       zPosition = Num 6 \<rparr>"

definition smallVolume :: "nat image" where
  "smallVolume =
     exampleVolume \<lparr> spacing := [Num 1, Num 1, Num 5], imgSize := [1, 1, 2],
                     data := TypedArray [10, 20] \<rparr>"

text \<open>
  \<open>exampleVolume\<close> in a store, as a typed array and as a Node \<open>Buffer\<close>, and the same
  volume with a buffer of 14 elements where its sizes ask for 16.
\<close>

definition exampleObject :: "data_ref \<Rightarrow> image_obj" where
  "exampleObject d =
     \<lparr> objImageType = \<lparr> dimension = 3, componentType = ''uint8'', pixelType = ''Scalar'',
                        components = 1 \<rparr>,
       objName = ''volume'',
       objOrigin = [Num 0, Num 0, Num 0],
       objSpacing = [Num 1, Num 1, Num 2],
       objDirection = identity3,
       objSize = [2, 2, 4],
       objMetadata = None,
       objData = d,
       objZPosition = None \<rparr>"

definition exampleStore :: "array_kind \<Rightarrow> nat store" where
  "exampleStore kind =
     \<lparr> buffers = [[0, 1, 2, 3, 4, 5, 6, 7, 8, 9, 10, 11, 12, 13, 14, 15]],
       objects = [exampleObject (ArrayRef kind 0 0 16)] \<rparr>"

definition shortStore :: "nat store" where
  "shortStore =
     \<lparr> buffers = [[0, 1, 2, 3, 4, 5, 6, 7, 8, 9, 10, 11, 12, 13]],
       objects = [exampleObject (ArrayRef Typed 0 0 14)] \<rparr>"

definition noOptions :: options where
  "noOptions =
     \<lparr> seriesDescription = None, seriesNumber = None, instanceNumberStart = None,
       modality = None, seriesInstanceUID = None, fileNamePattern = None,
       useCompression = None \<rparr>"

text \<open>Metadata that already describes the series, and options that describe it again.\<close>

definition describedBase :: "string \<rightharpoonup> string" where
  "describedBase = [''0008|103e'' \<mapsto> ''Original'', ''0020|0011'' \<mapsto> ''7'']"

definition describingOptions :: slice_options where
  "describingOptions =
     \<lparr> seriesDescription = Some ''New'', seriesNumber = Some 3, instanceNumberStart = Some 1,
       modality = Some ''CT'', seriesInstanceUID = Some ''1.2.3'' \<rparr>"

definition exampleMetadata :: dcmjs_metadata where
  "exampleMetadata =
     \<lparr> mdSeriesInstanceUID = ''1.2.3'', sopInstanceUID = ''1.2.3.4'', instanceNumber = 4,
       imagePosition = [Num 0, Num 0, Num 6], sliceLocation = Num 6,
       mdSeriesDescription = ''Series'', mdSeriesNumber = 1, mdModality = ''CT'',
       studyInstanceUID = ''1.2'', studyDate = ''20240102'', studyTime = ''030405'' \<rparr>"

definition zeroStartOptions :: options where
  "zeroStartOptions = noOptions \<lparr> instanceNumberStart := Some 0 \<rparr>"

text \<open>An environment whose clock advances at every call, and one whose clock and random
  source give the same values twice.\<close>

definition tickingEnv :: "nat env" where
  "tickingEnv =
     \<lparr> dateNow = (\<lambda>k. 1000 + k), mathRandom = (\<lambda>k. 42),
       toFixed6 = (\<lambda>x. case x of Num r \<Rightarrow> stringOfInt \<lfloor>r\<rfloor> @ ''.000000''
                           | PosInf \<Rightarrow> ''Infinity'' | NegInf \<Rightarrow> ''-Infinity''
                           | NaN \<Rightarrow> ''NaN''),
       gdcmWriteImage = (\<lambda>s f c. Inr []), dcmjsWrite = (\<lambda>ds. Inr []),
       toISOString = ''2024-01-02T03:04:05.000Z'', toTimeString = ''03:04:05 GMT+0000 (UTC)'' \<rparr>"

definition stuckEnv :: "nat env" where
  "stuckEnv = tickingEnv \<lparr> dateNow := (\<lambda>k. 1000) \<rparr>"

definition gdcmStart :: "nat gdcm_call state" where
  "gdcmStart = \<lparr> uidCalls = 0, encoderCalls = [] \<rparr>"

definition dcmjsStart :: "nat dcmjs_call state" where
  "dcmjsStart = \<lparr> uidCalls = 0, encoderCalls = [] \<rparr>"

section \<open>Double arithmetic\<close>

text \<open>An integer below \<open>2^53\<close> in magnitude is a double: rounding leaves it as it is.\<close>

lemma roundHalfEven_of_int [simp]: "roundHalfEven (of_int j) = j"
  by (simp add: roundHalfEven_def)

lemma roundDouble_of_int:
  assumes "\<bar>k\<bar> < (2::int) ^ 53"
  shows "roundDouble (of_int k) = Num (of_int k)"
proof (cases "k = 0")
  case True
  then show ?thesis by (simp add: roundDouble_def)
next
  case False
  define x :: real where "x = of_int k"
  define e where "e = max (\<lfloor>log 2 \<bar>x\<bar>\<rfloor> - 52) (- 1074)"
  have x0: "x \<noteq> 0" and xpos: "0 < \<bar>x\<bar>" using False by (simp_all add: x_def)
  have "\<bar>x\<bar> < 2 ^ 53"
  proof -
    have "real_of_int \<bar>k\<bar> < real_of_int (2 ^ 53)" using assms by (rule of_int_less_iff[THEN iffD2])
    then show ?thesis by (simp add: x_def)
  qed
  then have xb: "\<bar>x\<bar> < 2 powr 53" by simp
  have "log 2 \<bar>x\<bar> < 53" using xb xpos by (simp add: log_less_iff)
  then have "\<lfloor>log 2 \<bar>x\<bar>\<rfloor> < 53" by (simp add: floor_less_iff)
  then have e0: "e \<le> 0" by (simp add: e_def)
  define m where "m = nat (- e)"
  have p: "2 powr real_of_int e = inverse (2 ^ m)"
    using e0 by (simp add: powr_real_of_int m_def)
  have q: "x / 2 powr real_of_int e = of_int (k * 2 ^ m)"
    by (simp add: p x_def divide_inverse)
  have r: "of_int (roundHalfEven (x / 2 powr real_of_int e)) * 2 powr real_of_int e = x"
    unfolding q roundHalfEven_of_int by (simp add: p x_def)
  have b1: "\<not> 2 ^ 1024 \<le> x"
  proof -
    have "x \<le> \<bar>x\<bar>" by simp
    also have "\<dots> < 2 ^ 53" by fact
    also have "\<dots> \<le> (2::real) ^ 1024" by (rule power_increasing) simp_all
    finally show ?thesis by simp
  qed
  have b2: "\<not> x \<le> - (2 ^ 1024)"
  proof -
    have "- x \<le> \<bar>x\<bar>" by simp
    also have "\<dots> < 2 ^ 53" by fact
    also have "\<dots> \<le> (2::real) ^ 1024" by (rule power_increasing) simp_all
    finally show ?thesis by simp
  qed
  show ?thesis
    using x0 r b1 b2 unfolding roundDouble_def Let_def x_def[symmetric] e_def[symmetric]
    by simp
qed

lemma roundDouble_simps [simp]:
  "roundDouble 0 = Num 0"
  "roundDouble 1 = Num 1"
  "roundDouble (- 1) = Num (- 1)"
  "numeral n < (2::int) ^ 53 \<Longrightarrow> roundDouble (numeral n) = Num (numeral n)"
  "numeral n < (2::int) ^ 53 \<Longrightarrow> roundDouble (- numeral n) = Num (- numeral n)"
  using roundDouble_of_int[of 0] roundDouble_of_int[of 1] roundDouble_of_int[of "- 1"]
    roundDouble_of_int[of "numeral n"] roundDouble_of_int[of "- numeral n"]
  by simp_all

text \<open>
  The arithmetic rounds and overflows as binary64 does: \<open>0.1\<close> is
  \<open>3602879701896397 / 2^55\<close>, three times it is \<open>0.30000000000000004\<close> and not the
  double \<open>0.3\<close>, twice \<open>2^1023\<close> is \<open>Infinity\<close>, and \<open>Infinity * 0\<close> is \<open>NaN\<close>.
\<close>

lemma floor_log2:
  assumes "2 powr of_int k \<le> x" and "x < 2 powr of_int (k + 1)"
  shows "\<lfloor>log 2 x\<rfloor> = k"
proof -
  have "(0::real) < 2 powr of_int k" by simp
  with assms(1) have x: "0 < x" by linarith
  have a: "of_int k \<le> log 2 x" using assms(1) x by (simp add: le_log_iff)
  have b: "log 2 x < of_int k + 1" using assms(2) x by (simp add: log_less_iff)
  show ?thesis using a b by (simp add: floor_eq_iff)
qed

lemma tenth: "roundDouble (1 / 10) = Num (3602879701896397 / 2 ^ 55)"
proof -
  have f: "\<lfloor>log 2 \<bar>1 / 10 :: real\<bar>\<rfloor> = - 4"
    by (rule floor_log2) (simp_all add: powr_neg_numeral powr_neg_one)
  show ?thesis
    unfolding roundDouble_def Let_def f
    by (simp add: powr_neg_numeral roundHalfEven_def Let_def)
qed

lemma three_tenths: "jmul (Num 3) (Num (3602879701896397 / 2 ^ 55)) = Num (5404319552844596 / 2 ^ 54)"
proof -
  have f: "\<lfloor>log 2 \<bar>3 * (3602879701896397 / 2 ^ 55) :: real\<bar>\<rfloor> = - 2"
    by (rule floor_log2) (simp_all add: powr_neg_numeral powr_neg_one)
  show ?thesis
    unfolding jmul.simps roundDouble_def Let_def f
    by (simp add: powr_neg_numeral roundHalfEven_def Let_def)
qed


lemma three_tenths_direct: "roundDouble (3 / 10) = Num (5404319552844595 / 2 ^ 54)"
proof -
  have f: "\<lfloor>log 2 \<bar>3 / 10 :: real\<bar>\<rfloor> = - 2"
    by (rule floor_log2) (simp_all add: powr_neg_numeral powr_neg_one)
  show ?thesis
    unfolding roundDouble_def Let_def f
    by (simp add: powr_neg_numeral roundHalfEven_def Let_def)
qed

lemma roundDouble_overflow:
  assumes "1024 \<le> n"
  shows "roundDouble (2 ^ n) = PosInf"
proof -
  define m where "m = n - 52"
  have n: "n = 52 + m" using assms by (simp add: m_def)
  have f: "\<lfloor>log 2 \<bar>2 ^ n :: real\<bar>\<rfloor> = int n" by simp
  have e: "max (int n - 52) (- 1074) = int m" by (simp add: n)
  have p: "(2::real) powr of_int (int m) = 2 ^ m" by (simp add: powr_realpow)
  have q: "(2::real) ^ n / 2 ^ m = of_int (2 ^ 52)" by (simp add: n power_add)
  have r: "of_int (2 ^ 52) * (2::real) ^ m = 2 ^ n" by (simp add: n power_add)
  have b: "(2::real) ^ 1024 \<le> 2 ^ n" using assms by (intro power_increasing) simp_all
  have z: "(2::real) ^ n \<noteq> 0" by simp
  show ?thesis
    unfolding roundDouble_def Let_def f e p q roundHalfEven_of_int r
    using b z by (simp only: if_False if_True)
qed

lemma jmul_overflow:
  "jmul (Num 2) (Num (2 ^ 1023)) = PosInf" "jmul PosInf (Num 0) = NaN"
proof -
  have "(2::real) * 2 ^ 1023 = 2 ^ 1024" by (simp only: power_Suc[symmetric]) simp
  then show "jmul (Num 2) (Num (2 ^ 1023)) = PosInf"
    using roundDouble_overflow[of 1024] by (simp only: jmul.simps order_refl)
  show "jmul PosInf (Num 0) = NaN" by simp
qed

section \<open>Slice extraction: position and failures\<close>

lemma numAt_simps [simp]:
  "numAt (x # xs) 0 = x"
  "numAt (x # xs) (Suc n) = numAt xs n"
  "numAt [] n = NaN"
  by (simp_all add: numAt_def)

lemma numAt_numeral [simp]: "numAt (x # xs) (numeral k) = numAt xs (pred_numeral k)"
  by (simp add: numAt_def numeral_eq_Suc)

lemma sizeAt_simps [simp]:
  "sizeAt (x # xs) 0 = Some x"
  "sizeAt (x # xs) (Suc n) = sizeAt xs n"
  "sizeAt [] n = None"
  by (simp_all add: sizeAt_def)

lemma sizeAt_numeral [simp]: "sizeAt (x # xs) (numeral k) = sizeAt xs (pred_numeral k)"
  by (simp add: sizeAt_def numeral_eq_Suc)

text \<open>
  The position of a slice that \<open>extractSlice\<close> returns: elements 6, 7 and 8 of the
  direction array, each product and each sum rounded to a double.
\<close>

lemma extractSlice_InrD:
  assumes "extractSlice v i = Inr s"
  shows "origin s =
       [jadd (numAt (origin v) 0)
          (jmul (jmul (roundDouble (of_int i)) (numAt (spacing v) 2)) (numAt (direction v) 6)),
        jadd (numAt (origin v) 1)
          (jmul (jmul (roundDouble (of_int i)) (numAt (spacing v) 2)) (numAt (direction v) 7))]"
    and "zPosition s =
        jadd (numAt (origin v) 2)
          (jmul (jmul (roundDouble (of_int i)) (numAt (spacing v) 2)) (numAt (direction v) 8))"
  using assms by (auto simp: extractSlice_def Let_def split: sum.splits)

text \<open>The slice of a volume whose data is a typed array, written out.\<close>

lemma extractSlice_TypedArray_eq:
  assumes "data v = TypedArray xs" and "sizeAt (imgSize v) 0 = Some a"
    and "sizeAt (imgSize v) 1 = Some b"
  shows "extractSlice v i =
     Inr \<lparr> imageType = \<lparr> dimension = 2, componentType = componentType (imageType v),
                          pixelType = pixelType (imageType v),
                          components = components (imageType v) \<rparr>,
           name = ''slice_'' @ stringOfInt i,
           origin =
             [jadd (numAt (origin v) 0)
                (jmul (jmul (roundDouble (of_int i)) (numAt (spacing v) 2)) (numAt (direction v) 6)),
              jadd (numAt (origin v) 1)
                (jmul (jmul (roundDouble (of_int i)) (numAt (spacing v) 2)) (numAt (direction v) 7))],
           spacing = [numAt (spacing v) 0, numAt (spacing v) 1],
           direction = [numAt (direction v) 0, numAt (direction v) 1, numAt (direction v) 3,
                        numAt (direction v) 4],
           imgSize = [a mod 2 ^ 32, b mod 2 ^ 32],
           metadata = Some (case metadata v of None \<Rightarrow> Map.empty | Some m \<Rightarrow> m),
           data = TypedArray (jsSlice xs
             (i * (int a * int b) * int (components (imageType v)))
             (i * (int a * int b) * int (components (imageType v))
                + int a * int b * int (components (imageType v)))),
           zPosition =
             jadd (numAt (origin v) 2)
               (jmul (jmul (roundDouble (of_int i)) (numAt (spacing v) 2)) (numAt (direction v) 8)) \<rparr>"
  using assms by (simp add: extractSlice_def Let_def toInteger_def toUint32_def)

lemma extractSlice_TypedArray_Inr:
  assumes "data v = TypedArray xs"
  shows "\<exists>s. extractSlice v i = Inr s"
  using assms by (simp add: extractSlice_def Let_def split: sum.splits)

lemma extractSlice_NoData:
  assumes "data v = NoData"
  shows "extractSlice v i = Inl Error_InvalidImageDataFormat"
  using assms by (simp add: extractSlice_def Let_def)

lemma exampleVolume_data:
  "data exampleVolume = TypedArray [0, 1, 2, 3, 4, 5, 6, 7, 8, 9, 10, 11, 12, 13, 14, 15]"
  "sizeAt (imgSize exampleVolume) 0 = Some 2"
  "sizeAt (imgSize exampleVolume) 1 = Some 2"
  by (simp_all add: exampleVolume_def)

lemma rotatedVolume_data:
  "data rotatedVolume = TypedArray [0, 1, 2, 3, 4, 5, 6, 7, 8, 9, 10, 11, 12, 13, 14, 15]"
  "sizeAt (imgSize rotatedVolume) 0 = Some 2"
  "sizeAt (imgSize rotatedVolume) 1 = Some 2"
  by (simp_all add: rotatedVolume_def exampleVolume_def)

lemma flatImage_data:
  "data flatImage = TypedArray [1, 2, 3, 4]"
  "sizeAt (imgSize flatImage) 0 = Some 2"
  "sizeAt (imgSize flatImage) 1 = Some 2"
  by (simp_all add: flatImage_def)

text \<open>
  C1. The code does not compute the stated formula. The claim reads the direction matrix
  row by row and takes the third column, elements \<open>a*3 + 2\<close>; \<open>extractSlice\<close>, whose
  comment announces \<open>direction_column_2\<close>, takes elements 6 and 7, the third row. On the
  volume turned about its second axis, with \<open>direction[2] = 1\<close> and \<open>direction[6] = -1\<close>,
  slice 1 gets origin \<open>[-1, 0]\<close> where the stated formula gives \<open>[1, 0]\<close>.
\<close>

theorem extractSlice_position_rotated:
  "map_sum id origin (extractSlice rotatedVolume 1) = Inr [Num (- 1), Num 0] \<and>
   [specPosition rotatedVolume 1 0, specPosition rotatedVolume 1 1] = [Num 1, Num 0] \<and>
   map_sum id origin (extractSlice rotatedVolume 1)
     \<noteq> Inr [specPosition rotatedVolume 1 0, specPosition rotatedVolume 1 1]"
  unfolding extractSlice_TypedArray_eq[OF rotatedVolume_data] specPosition_def
  by (simp add: rotatedVolume_def exampleVolume_def)

text \<open>
  Where the third row and the third column of the matrix agree the code and the formula
  agree: \<open>zPosition\<close> uses element 8 in both, and for origin \<open>[0,0,0]\<close>, spacing
  \<open>[1,1,2]\<close> and the identity matrix slice 3 has \<open>zPosition\<close> 6 and origin \<open>[0,0]\<close>.
\<close>

lemma exampleVolume_slice3: "extractSlice exampleVolume 3 = Inr exampleSlice3"
  unfolding extractSlice_TypedArray_eq[OF exampleVolume_data]
  by (simp add: exampleVolume_def exampleSlice3_def identity3_def jsSlice_def
      stringOfInt_def stringOfNat.simps digitChar_def)

lemma exampleSlice3_position:
  "zPosition exampleSlice3 = Num 6" "origin exampleSlice3 = [Num 0, Num 0]"
  "zPosition exampleSlice3 = specPosition exampleVolume 3 2"
  "origin exampleSlice3 = [specPosition exampleVolume 3 0, specPosition exampleVolume 3 1]"
  by (simp_all add: exampleSlice3_def specPosition_def exampleVolume_def identity3_def)

text \<open>
  C2, as the code has it. \<open>extractSlice\<close> checks neither the index nor the dimension.
  On a volume whose data is a typed array it returns a slice for every index and every
  dimension, and the pixel buffer of that slice is
  \<open>data.slice(index * S, index * S + S)\<close> with \<open>S = size[0] * size[1] * components\<close>,
  under the rules of \<open>TypedArray.prototype.slice\<close>: a negative bound counts from the end,
  and both bounds are clamped to the array. Its one failure of its own is
  \<open>Invalid image data format\<close>, for a volume without data.
\<close>

theorem extractSlice_failures:
  "(data v = TypedArray xs \<longrightarrow> (\<exists>s. extractSlice v i = Inr s)) \<and>
   (data v = TypedArray xs \<and> sizeAt (imgSize v) 0 = Some a \<and> sizeAt (imgSize v) 1 = Some b \<and>
      extractSlice v i = Inr s \<longrightarrow>
      data s = TypedArray (jsSlice xs
        (i * (int a * int b) * int (components (imageType v)))
        (i * (int a * int b) * int (components (imageType v))
           + int a * int b * int (components (imageType v))))) \<and>
   (data v = NoData \<longrightarrow> extractSlice v i = Inl Error_InvalidImageDataFormat)"
proof (intro conjI impI)
  assume "data v = TypedArray xs"
  then show "\<exists>s. extractSlice v i = Inr s" by (rule extractSlice_TypedArray_Inr)
next
  assume h: "data v = TypedArray xs \<and> sizeAt (imgSize v) 0 = Some a \<and>
      sizeAt (imgSize v) 1 = Some b \<and> extractSlice v i = Inr s"
  then have d: "data v = TypedArray xs" and a: "sizeAt (imgSize v) 0 = Some a"
    and b: "sizeAt (imgSize v) 1 = Some b" and e: "extractSlice v i = Inr s"
    by blast+
  from e[unfolded extractSlice_TypedArray_eq[OF d a b]]
  show "data s = TypedArray (jsSlice xs
        (i * (int a * int b) * int (components (imageType v)))
        (i * (int a * int b) * int (components (imageType v))
           + int a * int b * int (components (imageType v))))"
    by auto
next
  assume "data v = NoData"
  then show "extractSlice v i = Inl Error_InvalidImageDataFormat" by (rule extractSlice_NoData)
qed

theorem extractSlice_failures_witness:
  "data exampleVolume = TypedArray [0, 1, 2, 3, 4, 5, 6, 7, 8, 9, 10, 11, 12, 13, 14, 15] \<and>
   sizeAt (imgSize exampleVolume) 0 = Some 2 \<and> sizeAt (imgSize exampleVolume) 1 = Some 2 \<and>
   (\<exists>s. extractSlice exampleVolume (- 2) = Inr s \<and> data s = TypedArray [8, 9, 10, 11]) \<and>
   data (exampleVolume \<lparr> data := NoData \<rparr>) = NoData \<and>
   extractSlice (exampleVolume \<lparr> data := NoData \<rparr>) 0 = Inl Error_InvalidImageDataFormat"
proof -
  note a = exampleVolume_data
  have b: "data (exampleVolume \<lparr> data := NoData \<rparr>) = NoData" by simp
  from extractSlice_failures[of exampleVolume
      "[0, 1, 2, 3, 4, 5, 6, 7, 8, 9, 10, 11, 12, 13, 14, 15]" "- 2" 2 2] a
  obtain s where e: "extractSlice exampleVolume (- 2) = Inr s" by blast
  from extractSlice_failures[of exampleVolume
      "[0, 1, 2, 3, 4, 5, 6, 7, 8, 9, 10, 11, 12, 13, 14, 15]" "- 2" 2 2 s] a e
  have "data s = TypedArray (jsSlice [0, 1, 2, 3, 4, 5, 6, 7, 8, 9, 10, 11, 12, 13, 14, 15]
        (- 2 * (int 2 * int 2) * int (components (imageType exampleVolume)))
        (- 2 * (int 2 * int 2) * int (components (imageType exampleVolume))
           + int 2 * int 2 * int (components (imageType exampleVolume))))"
    by blast
  then have c: "data s = TypedArray [8, 9, 10, 11]"
    by (simp add: exampleVolume_def jsSlice_def)
  from extractSlice_failures[of "exampleVolume \<lparr> data := NoData \<rparr>" "[]" 0] b
  have d: "extractSlice (exampleVolume \<lparr> data := NoData \<rparr>) 0 = Inl Error_InvalidImageDataFormat"
    by blast
  from a b c d e show ?thesis by blast
qed

text \<open>
  C2 as stated fails: \<open>exampleVolume\<close> has four slices, and no index out of range gives
  a range error: index 4 gives a slice with an empty pixel buffer, index -1 one with an
  empty pixel buffer, index -2 one with the pixels of slice 2, index -4 one with the
  pixels of slice 0; the two-dimensional \<open>flatImage\<close> gives a slice instead of a format
  error.
\<close>

theorem extractSlice_failures_counterexample:
  "imgSize exampleVolume = [2, 2, 4] \<and>
   map_sum id data (extractSlice exampleVolume 4) = Inr (TypedArray []) \<and>
   map_sum id data (extractSlice exampleVolume (- 1)) = Inr (TypedArray []) \<and>
   map_sum id data (extractSlice exampleVolume (- 2)) = Inr (TypedArray [8, 9, 10, 11]) \<and>
   map_sum id data (extractSlice exampleVolume (- 4)) = Inr (TypedArray [0, 1, 2, 3]) \<and>
   dimension (imageType flatImage) = 2 \<and>
   map_sum id data (extractSlice flatImage 0) = Inr (TypedArray [1, 2, 3, 4])"
  unfolding extractSlice_TypedArray_eq[OF exampleVolume_data]
    extractSlice_TypedArray_eq[OF flatImage_data]
  by (simp add: exampleVolume_def flatImage_def jsSlice_def)

section \<open>Slice extraction: the slab and the store\<close>

lemma slab_bound:
  fixes n c S :: nat
  assumes "n < c"
  shows "n * S + S \<le> c * S"
proof -
  have "Suc n \<le> c" using assms by simp
  then have "Suc n * S \<le> c * S" by (rule mult_le_mono1)
  then show ?thesis by (simp add: add.commute)
qed

lemma jsSlice_inside:
  assumes "off + len \<le> length xs"
  shows "jsSlice xs (int off) (int off + int len) = take len (drop off xs)"
  using assms by (simp add: jsSlice_def Let_def min_def)

lemma typedArrayView_inside:
  assumes "off + len \<le> length buf"
  shows "typedArrayView buf (Some (int off)) (Some (int len)) = Inr (take len (drop off buf))"
  using assms by (simp add: typedArrayView_def toInteger_def Let_def)

lemma sliceRange_inside:
  assumes "off + len \<le> n"
  shows "sliceRange n (int off) (int off + int len) = (off, len)"
  using assms by (simp add: sliceRange_def Let_def min_def)

lemma jsSlice_sliceRange:
  "jsSlice xs start fin = take (snd (sliceRange (length xs) start fin))
                            (drop (fst (sliceRange (length xs) start fin)) xs)"
  by (simp add: jsSlice_def sliceRange_def Let_def)

text \<open>A call that returns has added the slice object, and at most one buffer, to the store.\<close>

lemma extractSliceStore_shape:
  assumes "extractSliceStore st v i = Inr (s, st')"
  shows "s = length (objects st)"
    and "\<exists>sl. objects st' = objects st @ [sl]"
    and "buffers st' = buffers st \<or> (\<exists>c. buffers st' = buffers st @ [c])"
  using assms
  by (auto simp: extractSliceStore_def Let_def case_prod_beta
      split: sum.splits data_ref.splits array_kind.splits)

lemma viewOf_new_buffer:
  "viewOf \<lparr> buffers = bs @ [c], objects = os \<rparr> (ArrayRef kind (length bs) 0 (length c)) = c"
  by simp

lemma extractSliceStore_Typed:
  assumes "sizeAt (objSize (objects st ! v)) 0 = Some a"
    and "sizeAt (objSize (objects st ! v)) 1 = Some b"
    and "objData (objects st ! v) = ArrayRef Typed ad off n"
  shows "\<exists>s st'. extractSliceStore st v i = Inr (s, st') \<and>
           viewOf st' (objData (objects st' ! s))
             = jsSlice (viewOf st (ArrayRef Typed ad off n))
                 (i * (int a * int b) * int (components (objImageType (objects st ! v))))
                 (i * (int a * int b) * int (components (objImageType (objects st ! v)))
                   + int a * int b * int (components (objImageType (objects st ! v))))"
  using assms
  by (simp add: extractSliceStore_def Let_def toInteger_def viewOf_new_buffer
      del: viewOf.simps)

lemma extractSliceStore_NodeBuffer:
  assumes "sizeAt (objSize (objects st ! v)) 0 = Some a"
    and "sizeAt (objSize (objects st ! v)) 1 = Some b"
    and "objData (objects st ! v) = ArrayRef NodeBuffer ad off n"
    and "sliceRange (length (viewOf st (ArrayRef NodeBuffer ad off n)))
           (i * (int a * int b) * int (components (objImageType (objects st ! v))))
           (i * (int a * int b) * int (components (objImageType (objects st ! v)))
              + int a * int b * int (components (objImageType (objects st ! v)))) = (k, c)"
  shows "\<exists>s st'. extractSliceStore st v i = Inr (s, st') \<and>
           viewOf st' (objData (objects st' ! s)) = take c (drop (off + k) (buffers st ! ad))"
  using assms
  by (simp add: extractSliceStore_def Let_def toInteger_def)

lemma extractSliceStore_Legacy:
  assumes "sizeAt (objSize (objects st ! v)) 0 = Some a"
    and "sizeAt (objSize (objects st ! v)) 1 = Some b"
    and "objData (objects st ! v) = ArrayRef Legacy ad off n"
    and "typedArrayView (buffers st ! ad)
           (Some (int off + i * (int a * int b) * int (components (objImageType (objects st ! v)))))
           (Some (int a * int b * int (components (objImageType (objects st ! v))))) = Inr cp"
  shows "\<exists>s st'. extractSliceStore st v i = Inr (s, st') \<and>
           viewOf st' (objData (objects st' ! s)) = cp"
  using assms
  by (simp add: extractSliceStore_def Let_def)

lemma extractSliceStore_view:
  assumes s0: "sizeAt (objSize (objects st ! v)) 0 = Some a"
    and s1: "sizeAt (objSize (objects st ! v)) 1 = Some b"
    and d: "objData (objects st ! v) = ArrayRef kind ad off n"
    and S: "S = a * b * components (objImageType (objects st ! v))"
    and inside: "k * S + S \<le> n" and buf: "off + n \<le> length (buffers st ! ad)"
  shows "\<exists>s st'. extractSliceStore st v (int k) = Inr (s, st') \<and>
           viewOf st' (objData (objects st' ! s))
             = take S (drop (k * S) (viewOf st (objData (objects st ! v))))"
proof -
  have off: "int k * (int a * int b) * int (components (objImageType (objects st ! v)))
      = int (k * S)" by (simp add: S ac_simps)
  have ln: "int a * int b * int (components (objImageType (objects st ! v))) = int S"
    by (simp add: S)
  have lv: "length (viewOf st (ArrayRef kind ad off n)) = n" using buf by simp
  have inside': "k * S + S \<le> length (viewOf st (ArrayRef kind ad off n))"
    using inside lv by simp
  have eq: "take S (drop (off + k * S) (buffers st ! ad))
        = take S (drop (k * S) (viewOf st (ArrayRef kind ad off n)))"
    using inside by (simp add: drop_take add.commute)
  show ?thesis
  proof (cases kind)
    case Typed
    have js: "jsSlice (viewOf st (ArrayRef Typed ad off n)) (int (k * S)) (int (k * S) + int S)
        = take S (drop (k * S) (viewOf st (ArrayRef Typed ad off n)))"
      using inside'[unfolded Typed] by (rule jsSlice_inside)
    from extractSliceStore_Typed[OF s0 s1 d[unfolded Typed], of "int k"]
    show ?thesis unfolding off ln js d Typed .
  next
    case NodeBuffer
    have sr: "sliceRange (length (viewOf st (ArrayRef NodeBuffer ad off n)))
                (int (k * S)) (int (k * S) + int S) = (k * S, S)"
      using inside'[unfolded NodeBuffer] by (rule sliceRange_inside)
    from extractSliceStore_NodeBuffer[OF s0 s1 d[unfolded NodeBuffer], of "int k",
        unfolded off ln, OF sr]
    show ?thesis unfolding eq[unfolded NodeBuffer] d NodeBuffer .
  next
    case Legacy
    from inside buf have "(off + k * S) + S \<le> length (buffers st ! ad)" by simp
    then have "typedArrayView (buffers st ! ad) (Some (int (off + k * S))) (Some (int S))
        = Inr (take S (drop (off + k * S) (buffers st ! ad)))"
      by (rule typedArrayView_inside)
    then have tv: "typedArrayView (buffers st ! ad) (Some (int off + int (k * S))) (Some (int S))
        = Inr (take S (drop (off + k * S) (buffers st ! ad)))"
      by (simp only: of_nat_add)
    from extractSliceStore_Legacy[OF s0 s1 d[unfolded Legacy], of "int k",
        unfolded off ln, OF tv]
    show ?thesis unfolding eq[unfolded Legacy] d Legacy .
  qed
qed



text \<open>
  The function on the store computes what \<open>extractSlice\<close> computes on the image read out
  of the store: the same failure, or the same slice.
\<close>

lemma take_drop_take:
  assumes "k + c \<le> n"
  shows "take c (drop k (take n xs)) = take c (drop k xs)"
  using assms by (simp add: drop_take min_def)

lemma sliceRange_le: "fst (sliceRange n a b) + snd (sliceRange n a b) \<le> n"
proof -
  define k where "k = (if a < 0 then max (int n + a) 0 else min a (int n))"
  define f where "f = (if b < 0 then max (int n + b) 0 else min b (int n))"
  have k: "0 \<le> k" "k \<le> int n" by (simp_all add: k_def)
  have f: "f \<le> int n" by (simp add: f_def)
  have "nat k + nat (f - k) \<le> n" using k f by linarith
  then show ?thesis by (simp add: sliceRange_def Let_def k_def f_def)
qed

lemma buffer_slice_view:
  "take (snd (sliceRange (length (take n (drop off xs))) x y))
          (drop (off + fst (sliceRange (length (take n (drop off xs))) x y)) xs)
        = jsSlice (take n (drop off xs)) x y"
proof -
  define L where "L = length (take n (drop off xs))"
  define k where "k = fst (sliceRange L x y)"
  define c where "c = snd (sliceRange L x y)"
  have "k + c \<le> L" unfolding k_def c_def by (rule sliceRange_le)
  moreover have "L \<le> n" by (simp add: L_def)
  ultimately have kc: "k + c \<le> n" by simp
  have "take c (drop (off + k) xs) = take c (drop k (drop off xs))"
    by (simp only: drop_drop add.commute)
  also have "\<dots> = take c (drop k (take n (drop off xs)))"
    by (simp only: take_drop_take[OF kc])
  finally show ?thesis
    unfolding jsSlice_sliceRange L_def[symmetric] k_def[symmetric] c_def[symmetric] .
qed


lemma buffer_slice_view_min:
  "take (snd (sliceRange (min (length xs - off) n) x y))
          (drop (off + fst (sliceRange (min (length xs - off) n) x y)) xs)
        = jsSlice (take n (drop off xs)) x y"
  using buffer_slice_view[of n off xs x y] by simp

lemma loadImage_simps [simp]:
  "imageType (loadImage st obj) = objImageType obj"
  "origin (loadImage st obj) = objOrigin obj"
  "spacing (loadImage st obj) = objSpacing obj"
  "direction (loadImage st obj) = objDirection obj"
  "imgSize (loadImage st obj) = objSize obj"
  "metadata (loadImage st obj) = objMetadata obj"
  "data (loadImage st obj) = loadData st (objData obj)"
  by (simp_all add: loadImage_def)

lemma extractSliceStore_Inl:
  assumes "extractSliceStore st v i = Inl e"
  shows "extractSlice (loadImage st (objects st ! v)) i = Inl e"
proof (cases "objData (objects st ! v)")
  case NullData
  with assms show ?thesis by (simp add: extractSliceStore_def extractSlice_def Let_def)
next
  case (ArrayRef kind a off n)
  show ?thesis
  proof (cases kind)
    case Typed
    with assms ArrayRef show ?thesis by (simp add: extractSliceStore_def Let_def)
  next
    case NodeBuffer
    with assms ArrayRef show ?thesis
      by (simp add: extractSliceStore_def Let_def case_prod_beta)
  next
    case Legacy
    with assms ArrayRef show ?thesis
      by (simp add: extractSliceStore_def extractSlice_def Let_def case_prod_beta
          split: sum.splits)
  qed
qed


lemma extractSliceStore_Inr:
  assumes "extractSliceStore st v i = Inr (s, st')"
  shows "\<exists>sl. extractSlice (loadImage st (objects st ! v)) i = Inr sl \<and>
     imageType sl = objImageType (objects st' ! s) \<and>
     name sl = objName (objects st' ! s) \<and>
     origin sl = objOrigin (objects st' ! s) \<and>
     spacing sl = objSpacing (objects st' ! s) \<and>
     direction sl = objDirection (objects st' ! s) \<and>
     imgSize sl = objSize (objects st' ! s) \<and>
     metadata sl = objMetadata (objects st' ! s) \<and>
     data sl = TypedArray (viewOf st' (objData (objects st' ! s))) \<and>
     Some (zPosition sl) = objZPosition (objects st' ! s)"
proof (cases "objData (objects st ! v)")
  case NullData
  with assms show ?thesis by (simp add: extractSliceStore_def Let_def)
next
  case (ArrayRef kind a off n)
  show ?thesis
  proof (cases kind)
    case Typed
    with assms ArrayRef show ?thesis
      by (auto simp: extractSliceStore_def extractSlice_def Let_def)
  next
    case NodeBuffer
    with assms ArrayRef show ?thesis
      by (auto simp: extractSliceStore_def extractSlice_def Let_def case_prod_beta
          buffer_slice_view_min)
  next
    case Legacy
    with assms ArrayRef show ?thesis
      by (auto simp: extractSliceStore_def extractSlice_def Let_def case_prod_beta
          split: sum.splits)
  qed
qed

text \<open>
  C8, as the code has it. For a volume of the store that satisfies the volume invariant
  and an index in \<open>[0, size[2])\<close>, \<open>extractSlice\<close> returns a slice whose pixel buffer has
  exactly \<open>size[0] * size[1] * components\<close> elements, the elements of the volume's buffer
  from offset \<open>index * size[0] * size[1] * components\<close> on, each of them inside the
  volume's buffer; and the call leaves every object and every buffer that the store had,
  the volume's among them, as they were.
\<close>

theorem extractSliceStore_slab:
  assumes "validVolumeAt st v" and "0 \<le> i" and "i < int (objSize (objects st ! v) ! 2)"
  shows "\<exists>s st'. extractSliceStore st v i = Inr (s, st') \<and>
     length (viewOf st' (objData (objects st' ! s)))
       = objSize (objects st ! v) ! 0 * objSize (objects st ! v) ! 1
           * components (objImageType (objects st ! v)) \<and>
     (\<forall>j. j < objSize (objects st ! v) ! 0 * objSize (objects st ! v) ! 1
                 * components (objImageType (objects st ! v)) \<longrightarrow>
        nat i * objSize (objects st ! v) ! 0 * objSize (objects st ! v) ! 1
            * components (objImageType (objects st ! v)) + j
          < length (viewOf st (objData (objects st ! v))) \<and>
        viewOf st' (objData (objects st' ! s)) ! j
          = viewOf st (objData (objects st ! v))
              ! (nat i * objSize (objects st ! v) ! 0 * objSize (objects st ! v) ! 1
                   * components (objImageType (objects st ! v)) + j)) \<and>
     (\<forall>a. a < length (objects st) \<longrightarrow> objects st' ! a = objects st ! a) \<and>
     (\<forall>b. b < length (buffers st) \<longrightarrow> buffers st' ! b = buffers st ! b) \<and>
     viewOf st' (objData (objects st' ! v)) = viewOf st (objData (objects st ! v))"
proof -
  define obj where "obj = objects st ! v"
  define S where "S = objSize obj ! 0 * objSize obj ! 1 * components (objImageType obj)"
  have v: "v < length (objects st)" and len3: "length (objSize obj) = 3"
    using assms(1) by (simp_all add: validVolumeAt_def obj_def)
  from assms(1) obtain kind ad off n where d: "objData obj = ArrayRef kind ad off n"
    and ad: "ad < length (buffers st)" and buf: "off + n \<le> length (buffers st ! ad)"
    and n: "n = objSize obj ! 0 * objSize obj ! 1 * objSize obj ! 2 * components (objImageType obj)"
    by (auto simp: validVolumeAt_def obj_def split: data_ref.splits)
  have s0: "sizeAt (objSize obj) 0 = Some (objSize obj ! 0)"
    and s1: "sizeAt (objSize obj) 1 = Some (objSize obj ! 1)"
    using len3 by (simp_all add: sizeAt_def)
  have nS: "n = objSize obj ! 2 * S" unfolding n S_def by (simp add: ac_simps)
  have k: "nat i < objSize obj ! 2" and ik: "int (nat i) = i"
    using assms(2,3) by (simp_all add: obj_def)
  have inside: "nat i * S + S \<le> n" unfolding nS using k by (rule slab_bound)
  have lv: "length (viewOf st (objData obj)) = n" using buf by (simp add: d)
  from extractSliceStore_view[OF s0[unfolded obj_def] s1[unfolded obj_def] d[unfolded obj_def]
      S_def[unfolded obj_def] inside buf]
  obtain s st' where e: "extractSliceStore st v i = Inr (s, st')"
    and vw: "viewOf st' (objData (objects st' ! s))
               = take S (drop (nat i * S) (viewOf st (objData obj)))"
    unfolding ik obj_def by blast
  have l: "length (viewOf st' (objData (objects st' ! s))) = S"
    unfolding vw using inside lv by simp
  have el: "\<forall>j. j < S \<longrightarrow> nat i * S + j < length (viewOf st (objData obj)) \<and>
        viewOf st' (objData (objects st' ! s)) ! j = viewOf st (objData obj) ! (nat i * S + j)"
    unfolding vw using inside lv by simp
  from extractSliceStore_shape(2)[OF e] obtain sl where os: "objects st' = objects st @ [sl]"
    by blast
  have fo: "\<forall>a. a < length (objects st) \<longrightarrow> objects st' ! a = objects st ! a"
    by (simp add: os nth_append)
  have fb: "\<forall>b. b < length (buffers st) \<longrightarrow> buffers st' ! b = buffers st ! b"
    using extractSliceStore_shape(3)[OF e] by (auto simp: nth_append)
  have fv: "viewOf st' (objData (objects st' ! v)) = viewOf st (objData obj)"
    using fo v fb ad by (simp add: d obj_def[symmetric])
  have o: "nat i * objSize obj ! 0 * objSize obj ! 1 * components (objImageType obj) = nat i * S"
    by (simp add: S_def ac_simps)
  show ?thesis
    unfolding obj_def[symmetric] o S_def[symmetric]
    using e l el fo fb fv by blast
qed

lemma exampleStore_valid: "validVolumeAt (exampleStore kind) 0"
  by (simp add: validVolumeAt_def exampleStore_def exampleObject_def)

theorem extractSliceStore_slab_witness:
  "validVolumeAt (exampleStore Typed) 0 \<and> (0::int) \<le> 1 \<and>
   1 < int (objSize (objects (exampleStore Typed) ! 0) ! 2) \<and>
   (\<exists>s st'. extractSliceStore (exampleStore Typed) 0 1 = Inr (s, st') \<and>
      length (viewOf st' (objData (objects st' ! s))) = 4 \<and>
      viewOf st' (objData (objects st' ! s)) ! 0 = 4 \<and>
      viewOf st' (objData (objects st' ! s)) ! 3 = 7 \<and>
      objects st' ! 0 = objects (exampleStore Typed) ! 0 \<and>
      buffers st' ! 0 = buffers (exampleStore Typed) ! 0)"
proof -
  have h: "validVolumeAt (exampleStore Typed) 0" "(0::int) \<le> 1"
    "1 < int (objSize (objects (exampleStore Typed) ! 0) ! 2)"
    by (simp_all add: exampleStore_valid) (simp add: exampleStore_def exampleObject_def)
  have S: "objSize (objects (exampleStore Typed) ! 0) ! 0
      * objSize (objects (exampleStore Typed) ! 0) ! 1
      * components (objImageType (objects (exampleStore Typed) ! 0)) = 4"
    by (simp add: exampleStore_def exampleObject_def)
  have o: "nat 1 * objSize (objects (exampleStore Typed) ! 0) ! 0
      * objSize (objects (exampleStore Typed) ! 0) ! 1
      * components (objImageType (objects (exampleStore Typed) ! 0)) = 4"
    by (simp add: exampleStore_def exampleObject_def)
  have lo: "0 < length (objects (exampleStore Typed))"
    and lb: "0 < length (buffers (exampleStore Typed))"
    by (simp_all add: exampleStore_def)
  have v0: "viewOf (exampleStore Typed) (objData (objects (exampleStore Typed) ! 0)) ! (4 + 0) = 4"
    and v3: "viewOf (exampleStore Typed) (objData (objects (exampleStore Typed) ! 0)) ! (4 + 3) = 7"
    by (simp_all add: exampleStore_def exampleObject_def)
  from extractSliceStore_slab[OF h, unfolded S o]
  obtain s st' where e: "extractSliceStore (exampleStore Typed) 0 1 = Inr (s, st')"
    and l: "length (viewOf st' (objData (objects st' ! s))) = 4"
    and el: "\<And>j. j < 4 \<Longrightarrow> viewOf st' (objData (objects st' ! s)) ! j
          = viewOf (exampleStore Typed) (objData (objects (exampleStore Typed) ! 0)) ! (4 + j)"
    and fo: "\<And>a. a < length (objects (exampleStore Typed)) \<Longrightarrow>
          objects st' ! a = objects (exampleStore Typed) ! a"
    and fb: "\<And>b. b < length (buffers (exampleStore Typed)) \<Longrightarrow>
          buffers st' ! b = buffers (exampleStore Typed) ! b"
    by blast
  from el[of 0] v0 have d0: "viewOf st' (objData (objects st' ! s)) ! 0 = 4" by simp
  from el[of 3] v3 have d3: "viewOf st' (objData (objects st' ! s)) ! 3 = 7" by simp
  from h e l d0 d3 fo[OF lo] fb[OF lb] show ?thesis by blast
qed

text \<open>
  C8 as stated fails: \<open>shortStore\<close> holds a volume of dimension 3 and sizes \<open>[2,2,4]\<close>
  whose buffer has 14 elements; slice 3, in range, has a pixel buffer of 2 elements, not
  4.
\<close>

theorem extractSliceStore_slab_counterexample:
  "dimension (objImageType (objects shortStore ! 0)) = 3 \<and>
   objSize (objects shortStore ! 0) = [2, 2, 4] \<and>
   components (objImageType (objects shortStore ! 0)) = 1 \<and>
   returnedView (extractSliceStore shortStore 0 3) = Inr [12, 13]"
proof -
  have s: "sizeAt (objSize (objects shortStore ! 0)) 0 = Some 2"
    "sizeAt (objSize (objects shortStore ! 0)) 1 = Some 2"
    "objData (objects shortStore ! 0) = ArrayRef Typed 0 0 14"
    by (simp_all add: shortStore_def exampleObject_def sizeAt_def)
  from extractSliceStore_Typed[OF s, of 3] obtain s' st' where
    e: "extractSliceStore shortStore 0 3 = Inr (s', st')"
    and v: "viewOf st' (objData (objects st' ! s'))
             = jsSlice (viewOf shortStore (ArrayRef Typed 0 0 14))
                 (3 * (int 2 * int 2) * int (components (objImageType (objects shortStore ! 0))))
                 (3 * (int 2 * int 2) * int (components (objImageType (objects shortStore ! 0)))
                   + int 2 * int 2 * int (components (objImageType (objects shortStore ! 0))))"
    by blast
  have "viewOf st' (objData (objects st' ! s')) = [12, 13]"
    unfolding v by (simp add: shortStore_def exampleObject_def jsSlice_def)
  then show ?thesis
    by (simp add: e returnedView_def) (simp add: shortStore_def exampleObject_def)
qed

text \<open>The slice of a Node \<open>Buffer\<close> is a view of the volume's own buffer.\<close>

lemma extractSliceStore_Buffer_view:
  "extractSliceStore (exampleStore NodeBuffer) 0 1 = Inr (s, st') \<Longrightarrow>
     objData (objects st' ! s) = ArrayRef NodeBuffer 0 4 4 \<and>
     buffers st' = buffers (exampleStore NodeBuffer)"
  by (auto simp: extractSliceStore_def exampleStore_def exampleObject_def Let_def sizeAt_def
      sliceRange_def toInteger_def)

section \<open>The metadata of one slice\<close>

text \<open>\<open>createDicomMetadataForSlice\<close> with its pairs and cases resolved.\<close>

lemma createDicomMetadataForSlice_eq:
  fixes opts :: "'o slice_options_scheme"
  shows "createDicomMetadataForSlice env base i n s opts k =
     (let gen = (baseMap base ''0020|000e'' = None \<and> \<not> truthyStr (seriesInstanceUID opts));
          k1 = (if gen then Suc k else k);
          su = (if truthyStr (seriesInstanceUID opts) then the (seriesInstanceUID opts)
                else fst (generateUID env k));
          m1 = (if baseMap base ''0020|000e'' = None then (baseMap base)(''0020|000e'' \<mapsto> su)
                else baseMap base);
          m2 = m1(''0008|0018'' \<mapsto> fst (generateUID env k1));
          m3 = m2(''0020|0013'' \<mapsto> stringOfInt (int i +
                 (case instanceNumberStart opts of
                    None \<Rightarrow> 1
                  | Some x \<Rightarrow> if x \<noteq> 0 then x else 1)));
          m4 = m3(''0020|0032'' \<mapsto> toFixed6 env (numAt (origin s) 0) @ [CHR 0x5C]
                 @ toFixed6 env (numAt (origin s) 1) @ [CHR 0x5C] @ toFixed6 env (zPosition s));
          m5 = m4(''0020|1041'' \<mapsto> toFixed6 env (zPosition s));
          m6 = (if truthyStr (seriesDescription opts)
                then m5(''0008|103e'' \<mapsto> the (seriesDescription opts)) else m5);
          m7 = (if seriesNumber opts \<noteq> None
                then m6(''0020|0011'' \<mapsto> stringOfInt (the (seriesNumber opts))) else m6);
          m8 = m7(''0020|1002'' \<mapsto> stringOfNat n);
          m9 = (if m8 ''0008|0060'' = None \<and> truthyStr (modality opts)
                then m8(''0008|0060'' \<mapsto> the (modality opts)) else m8)
      in (m9, Suc k1))"
proof -
  have sn: "\<And>m :: string \<rightharpoonup> string. (case seriesNumber opts of None \<Rightarrow> m
          | Some x \<Rightarrow> m(''0020|0011'' \<mapsto> stringOfInt x))
     = (if seriesNumber opts \<noteq> None
        then m(''0020|0011'' \<mapsto> stringOfInt (the (seriesNumber opts))) else m)"
    by (cases "seriesNumber opts") simp_all
  have g: "\<And>j. snd (generateUID env j) = Suc j" by (simp add: generateUID_def)
  show ?thesis
  proof (cases "baseMap base ''0020|000e''")
    case None
    note T = None[unfolded baseMap_def]
    show ?thesis
    proof (cases "truthyStr (seriesInstanceUID opts)")
      case True
      with T show ?thesis
        unfolding createDicomMetadataForSlice_def Let_def sn baseMap_def
        by (simp add: case_prod_beta g split del: if_split cong: if_cong)
    next
      case False
      with T show ?thesis
        unfolding createDicomMetadataForSlice_def Let_def sn baseMap_def
        by (simp add: case_prod_beta g split del: if_split cong: if_cong)
    qed
  next
    case (Some y)
    note F = Some[unfolded baseMap_def]
    then show ?thesis
      unfolding createDicomMetadataForSlice_def Let_def sn baseMap_def
      by (simp add: case_prod_beta g split del: if_split cong: if_cong)
  qed
qed

lemma if_upd_apply: "(if c then m(t \<mapsto> v) else m) x = (if c \<and> t = x then Some v else m x)"
  by simp

text \<open>What \<open>createDicomMetadataForSlice\<close> leaves under the tags it may write.\<close>

lemma createDicomMetadataForSlice_tags:
  fixes opts :: "'o slice_options_scheme"
  shows "fst (createDicomMetadataForSlice env base i n s opts k) ''0008|103e'' =
           (if truthyStr (seriesDescription opts) then Some (the (seriesDescription opts))
            else baseMap base ''0008|103e'')"
    and "fst (createDicomMetadataForSlice env base i n s opts k) ''0020|0011'' =
           (if seriesNumber opts \<noteq> None then Some (stringOfInt (the (seriesNumber opts)))
            else baseMap base ''0020|0011'')"
    and "fst (createDicomMetadataForSlice env base i n s opts k) ''0008|0060'' =
           (if baseMap base ''0008|0060'' = None \<and> truthyStr (modality opts)
            then Some (the (modality opts))
            else baseMap base ''0008|0060'')"
    and "fst (createDicomMetadataForSlice env base i n s opts k) ''0020|0013'' =
           Some (stringOfInt (int i +
             (case instanceNumberStart opts of
                None \<Rightarrow> 1
              | Some x \<Rightarrow> if x \<noteq> 0 then x else 1)))"
    and "fst (createDicomMetadataForSlice env base i n s opts k) ''0020|000e'' =
           (if baseMap base ''0020|000e'' = None then
              Some (if truthyStr (seriesInstanceUID opts) then the (seriesInstanceUID opts)
               else fst (generateUID env k))
            else baseMap base ''0020|000e'')"
    and "fst (createDicomMetadataForSlice env base i n s opts k) ''0008|0018'' =
           Some (fst (generateUID env
             (if baseMap base ''0020|000e'' = None \<and> \<not> truthyStr (seriesInstanceUID opts)
              then Suc k else k)))"
    and "snd (createDicomMetadataForSlice env base i n s opts k) =
           Suc (if baseMap base ''0020|000e'' = None \<and> \<not> truthyStr (seriesInstanceUID opts)
                then Suc k else k)"
  unfolding createDicomMetadataForSlice_eq Let_def fst_conv snd_conv if_upd_apply fun_upd_apply
  by (simp_all split del: if_split cong: if_cong)

lemma truthyStr_the: "truthyStr x \<Longrightarrow> Some (the x) = x"
  by (cases x) (simp_all add: truthyStr_def)

text \<open>
  C6, as the code has it. The series description is set whenever the options give a
  non-empty one, and the series number whenever the options give one, whether or not
  the base metadata has the tag; the modality is set only when the options give a
  non-empty one and the base metadata has none. Otherwise each of the three tags keeps
  what the base metadata has.
\<close>

theorem createDicomMetadataForSlice_descriptive:
  fixes opts :: "'o slice_options_scheme"
  shows "fst (createDicomMetadataForSlice env base i n s opts k) ''0008|103e'' =
           (if truthyStr (seriesDescription opts) then seriesDescription opts
            else baseMap base ''0008|103e'') \<and>
         fst (createDicomMetadataForSlice env base i n s opts k) ''0020|0011'' =
           (case seriesNumber opts of
              None \<Rightarrow> baseMap base ''0020|0011''
            | Some x \<Rightarrow> Some (stringOfInt x)) \<and>
         fst (createDicomMetadataForSlice env base i n s opts k) ''0008|0060'' =
           (if baseMap base ''0008|0060'' = None \<and> truthyStr (modality opts)
            then modality opts
            else baseMap base ''0008|0060'')"
  unfolding createDicomMetadataForSlice_tags
  by (cases "seriesNumber opts") (simp_all add: truthyStr_the)

lemma stringOfNat_digit: "n < 10 \<Longrightarrow> stringOfNat n = [digitChar n]"
  by (simp add: stringOfNat.simps)

text \<open>
  C6 as stated fails: with a base that has series description \<open>Original\<close> and series
  number \<open>7\<close>, and options that give \<open>New\<close> and 3, the result has \<open>New\<close> and \<open>3\<close>.
\<close>

theorem createDicomMetadataForSlice_descriptive_counterexample:
  "describedBase ''0008|103e'' = Some ''Original'' \<and>
   fst (createDicomMetadataForSlice tickingEnv (Some describedBase) 0 1 exampleSlice3
          describingOptions 0) ''0008|103e'' = Some ''New'' \<and>
   describedBase ''0020|0011'' = Some ''7'' \<and>
   fst (createDicomMetadataForSlice tickingEnv (Some describedBase) 0 1 exampleSlice3
          describingOptions 0) ''0020|0011'' = Some ''3''"
  unfolding createDicomMetadataForSlice_tags
  by (simp add: describedBase_def describingOptions_def truthyStr_def stringOfInt_def
      stringOfNat_digit digitChar_def)

section \<open>The data set of one slice\<close>

lemma getBitsAllocated_kind:
  "getBitsAllocated (kindName k) =
     (if k \<in> {Int8, UInt8} then 8 else if k \<in> {Int16, UInt16} then 16
      else if k \<in> {Int32, UInt32} then 32 else 16)"
  by (cases k) (simp_all add: getBitsAllocated_def bitsMap_def)

lemma isSignedType_kind: "isSignedType (kindName k) = (k \<in> {Int8, Int16, Int32, Int64})"
  by (cases k) (simp_all add: isSignedType_def startsWith_def)

lemma dicomDataset_pixel_entries:
  assumes "dicomDataset s md = Inr ds"
  shows "map_of ds ''00280100'' =
           Some (''US'', [VInt (getBitsAllocated (componentType (imageType s)))])"
    and "map_of ds ''00280101'' =
           Some (''US'', [VInt (getBitsStored (componentType (imageType s)))])"
    and "map_of ds ''00280102'' =
           Some (''US'', [VInt (getBitsStored (componentType (imageType s)) - 1)])"
    and "map_of ds ''00280103'' =
           Some (''US'', [VInt (if isSignedType (componentType (imageType s)) then 1 else 0)])"
  using assms
  by (auto simp: dicomDataset_def Let_def split: sum.splits pixel_data.splits)

lemma dicomDataset_fixed_entries:
  assumes "dicomDataset s md = Inr ds"
  shows "map_of ds ''00080016'' = Some (''UI'', [VStr ''1.2.840.10008.5.1.4.1.1.4''])"
    and "map_of ds ''00100010'' = Some (''PN'', [VPersonName ''Anonymous''])"
    and "map_of ds ''00100020'' = Some (''LO'', [VStr ''ANON123''])"
  using assms
  by (auto simp: dicomDataset_def Let_def split: sum.splits pixel_data.splits)

lemma dicomDataset_run_entries:
  assumes "dicomDataset s md = Inr ds"
  shows "map_of ds ''00080018'' = Some (''UI'', [VStr (sopInstanceUID md)])"
    and "map_of ds ''0020000E'' = Some (''UI'', [VStr (mdSeriesInstanceUID md)])"
    and "map_of ds ''00200013'' = Some (''IS'', [VInt (instanceNumber md)])"
  using assms
  by (auto simp: dicomDataset_def Let_def split: sum.splits pixel_data.splits)

lemma dicomDataset_Inr:
  assumes "data s \<noteq> NoData"
  shows "\<exists>ds. dicomDataset s md = Inr ds"
  using assms by (cases "data s") (simp_all add: dicomDataset_def Let_def)

text \<open>
  C5, as the code has it. Bits allocated is 8 for \<open>int8\<close> and \<open>uint8\<close>, 16 for \<open>int16\<close>
  and \<open>uint16\<close>, 32 for \<open>int32\<close> and \<open>uint32\<close>, and 16 for every other kind; bits stored
  equals bits allocated; the high bit is bits stored minus one; the pixel representation
  is 1 exactly when the kind's name starts with \<open>int\<close>, which makes \<open>int64\<close> signed
  with 16 bits, and \<open>uint64\<close>, \<open>float32\<close>, \<open>float64\<close> unsigned. So
  \<open>uint8\<close> gives (8,8,7,false), \<open>int16\<close> (16,16,15,true), \<open>uint32\<close> (32,32,31,false).
\<close>

theorem pixel_encoding_attributes:
  "getBitsAllocated (kindName k) =
     (if k \<in> {Int8, UInt8} then 8 else if k \<in> {Int16, UInt16} then 16
      else if k \<in> {Int32, UInt32} then 32 else 16) \<and>
   getBitsStored (kindName k) = getBitsAllocated (kindName k) \<and>
   isSignedType (kindName k) = (k \<in> {Int8, Int16, Int32, Int64}) \<and>
   (dicomDataset s md = Inr ds \<and> componentType (imageType s) = kindName k \<longrightarrow>
      map_of ds ''00280100'' = Some (''US'', [VInt (getBitsAllocated (kindName k))]) \<and>
      map_of ds ''00280101'' = Some (''US'', [VInt (getBitsStored (kindName k))]) \<and>
      map_of ds ''00280102'' = Some (''US'', [VInt (getBitsStored (kindName k) - 1)]) \<and>
      map_of ds ''00280103'' =
        Some (''US'', [VInt (if isSignedType (kindName k) then 1 else 0)])) \<and>
   (getBitsAllocated ''uint8'', getBitsStored ''uint8'', getBitsStored ''uint8'' - 1,
      isSignedType ''uint8'') = (8, 8, 7, False) \<and>
   (getBitsAllocated ''int16'', getBitsStored ''int16'', getBitsStored ''int16'' - 1,
      isSignedType ''int16'') = (16, 16, 15, True) \<and>
   (getBitsAllocated ''uint32'', getBitsStored ''uint32'', getBitsStored ''uint32'' - 1,
      isSignedType ''uint32'') = (32, 32, 31, False)"
proof (intro conjI impI)
  show "getBitsAllocated (kindName k) =
     (if k \<in> {Int8, UInt8} then 8 else if k \<in> {Int16, UInt16} then 16
      else if k \<in> {Int32, UInt32} then 32 else 16)"
    by (rule getBitsAllocated_kind)
  show "getBitsStored (kindName k) = getBitsAllocated (kindName k)"
    by (simp add: getBitsStored_def)
  show "isSignedType (kindName k) = (k \<in> {Int8, Int16, Int32, Int64})"
    by (rule isSignedType_kind)
  show "(getBitsAllocated ''uint8'', getBitsStored ''uint8'', getBitsStored ''uint8'' - 1,
      isSignedType ''uint8'') = (8, 8, 7, False)"
    using getBitsAllocated_kind[of UInt8] isSignedType_kind[of UInt8]
    by (simp add: getBitsStored_def)
  show "(getBitsAllocated ''int16'', getBitsStored ''int16'', getBitsStored ''int16'' - 1,
      isSignedType ''int16'') = (16, 16, 15, True)"
    using getBitsAllocated_kind[of Int16] isSignedType_kind[of Int16]
    by (simp add: getBitsStored_def)
  show "(getBitsAllocated ''uint32'', getBitsStored ''uint32'', getBitsStored ''uint32'' - 1,
      isSignedType ''uint32'') = (32, 32, 31, False)"
    using getBitsAllocated_kind[of UInt32] isSignedType_kind[of UInt32]
    by (simp add: getBitsStored_def)
next
  assume a: "dicomDataset s md = Inr ds \<and> componentType (imageType s) = kindName k"
  then have d: "dicomDataset s md = Inr ds" and c: "componentType (imageType s) = kindName k"
    by simp_all
  show "map_of ds ''00280100'' = Some (''US'', [VInt (getBitsAllocated (kindName k))])"
    using dicomDataset_pixel_entries(1)[OF d] c by simp
  show "map_of ds ''00280101'' = Some (''US'', [VInt (getBitsStored (kindName k))])"
    using dicomDataset_pixel_entries(2)[OF d] c by simp
  show "map_of ds ''00280102'' = Some (''US'', [VInt (getBitsStored (kindName k) - 1)])"
    using dicomDataset_pixel_entries(3)[OF d] c by simp
  show "map_of ds ''00280103'' =
        Some (''US'', [VInt (if isSignedType (kindName k) then 1 else 0)])"
    using dicomDataset_pixel_entries(4)[OF d] c by simp
qed

theorem pixel_encoding_attributes_witness:
  "(\<exists>ds. dicomDataset exampleSlice3 exampleMetadata = Inr ds \<and>
      componentType (imageType exampleSlice3) = kindName UInt8 \<and>
      map_of ds ''00280100'' = Some (''US'', [VInt 8]) \<and>
      map_of ds ''00280101'' = Some (''US'', [VInt 8]) \<and>
      map_of ds ''00280102'' = Some (''US'', [VInt 7]) \<and>
      map_of ds ''00280103'' = Some (''US'', [VInt 0]))"
proof -
  have "data exampleSlice3 \<noteq> NoData" by (simp add: exampleSlice3_def)
  then obtain ds where d: "dicomDataset exampleSlice3 exampleMetadata = Inr ds"
    using dicomDataset_Inr by blast
  have c: "componentType (imageType exampleSlice3) = kindName UInt8"
    by (simp add: exampleSlice3_def)
  from pixel_encoding_attributes[of UInt8 exampleSlice3 exampleMetadata ds] d c
  have "map_of ds ''00280100'' = Some (''US'', [VInt 8]) \<and>
      map_of ds ''00280101'' = Some (''US'', [VInt 8]) \<and>
      map_of ds ''00280102'' = Some (''US'', [VInt 7]) \<and>
      map_of ds ''00280103'' = Some (''US'', [VInt 0])"
    by simp
  with d c show ?thesis by blast
qed

text \<open>
  C5 as stated fails: \<open>int64\<close> is not in the table, so it gets the default 16 bits,
  and it is signed, where the claim makes every kind outside the table unsigned.
\<close>

theorem pixel_encoding_attributes_counterexample:
  "map_of bitsMap (kindName Int64) = None \<and> getBitsAllocated (kindName Int64) = 16 \<and>
   isSignedType (kindName Int64)"
  by (simp add: bitsMap_def getBitsAllocated_def isSignedType_def startsWith_def)

text \<open>
  C9. Whatever the slice and the metadata, the data set that \<open>writeDicomSlice\<close> hands to
  the encoder has SOP Class UID \<open>1.2.840.10008.5.1.4.1.1.4\<close>, Patient Name \<open>Anonymous\<close>
  and Patient ID \<open>ANON123\<close>; a slice with pixel data always gets a data set.
\<close>

theorem writeDicomSlice_fixed_attributes:
  "(data s \<noteq> NoData \<longrightarrow> (\<exists>ds. dicomDataset s md = Inr ds)) \<and>
   (dicomDataset s md = Inr ds \<longrightarrow>
      writeDicomSlice env s md = dcmjsWrite env ds \<and>
      map_of ds ''00080016'' = Some (''UI'', [VStr ''1.2.840.10008.5.1.4.1.1.4'']) \<and>
      map_of ds ''00100010'' = Some (''PN'', [VPersonName ''Anonymous'']) \<and>
      map_of ds ''00100020'' = Some (''LO'', [VStr ''ANON123'']))"
  using dicomDataset_Inr[of s md] dicomDataset_fixed_entries[of s md ds]
  by (auto simp: writeDicomSlice_def)

theorem writeDicomSlice_fixed_attributes_witness:
  "data exampleSlice3 \<noteq> NoData \<and>
   (\<exists>ds. dicomDataset exampleSlice3 exampleMetadata = Inr ds \<and>
      writeDicomSlice tickingEnv exampleSlice3 exampleMetadata = dcmjsWrite tickingEnv ds \<and>
      map_of ds ''00080016'' = Some (''UI'', [VStr ''1.2.840.10008.5.1.4.1.1.4'']) \<and>
      map_of ds ''00100010'' = Some (''PN'', [VPersonName ''Anonymous'']) \<and>
      map_of ds ''00100020'' = Some (''LO'', [VStr ''ANON123'']))"
proof -
  have n: "data exampleSlice3 \<noteq> NoData" by (simp add: exampleSlice3_def)
  with writeDicomSlice_fixed_attributes[of exampleSlice3 exampleMetadata]
  obtain ds where d: "dicomDataset exampleSlice3 exampleMetadata = Inr ds" by blast
  from writeDicomSlice_fixed_attributes[of exampleSlice3 exampleMetadata ds tickingEnv] d n
  show ?thesis by blast
qed

section \<open>Identifiers\<close>

lemma digitChar_inj: "a < 10 \<Longrightarrow> b < 10 \<Longrightarrow> digitChar a = digitChar b \<Longrightarrow> a = b"
  by (simp add: digitChar_def split: if_splits) arith

lemma digitChar_not_dot: "digitChar d \<noteq> CHR ''.''"
  by (simp add: digitChar_def)

lemma stringOfNat_not_Nil: "stringOfNat n \<noteq> []"
  by (subst stringOfNat.simps) simp

lemma stringOfNat_last: "last (stringOfNat n) = digitChar (n mod 10)"
  by (subst stringOfNat.simps) simp

lemma stringOfNat_butlast:
  "butlast (stringOfNat n) = (if n < 10 then [] else stringOfNat (n div 10))"
  by (subst stringOfNat.simps) simp

lemma stringOfNat_length_one: "length (stringOfNat n) = 1 \<longleftrightarrow> n < 10"
proof
  assume l: "length (stringOfNat n) = 1"
  show "n < 10"
  proof (rule ccontr)
    assume "\<not> n < 10"
    then have "stringOfNat n = stringOfNat (n div 10) @ [digitChar (n mod 10)]"
      by (subst stringOfNat.simps) simp
    with l have "stringOfNat (n div 10) = []" by simp
    then show False by (simp add: stringOfNat_not_Nil)
  qed
next
  assume "n < 10"
  then show "length (stringOfNat n) = 1" by (subst stringOfNat.simps) simp
qed

lemma stringOfNat_inj: "stringOfNat m = stringOfNat n \<Longrightarrow> m = n"
proof (induction m arbitrary: n rule: stringOfNat.induct)
  case (1 m)
  from "1.prems" have lst: "digitChar (m mod 10) = digitChar (n mod 10)"
    using stringOfNat_last[of m] stringOfNat_last[of n] by simp
  then have md: "m mod 10 = n mod 10" by (auto intro: digitChar_inj)
  from "1.prems" have len: "m < 10 \<longleftrightarrow> n < 10"
    using stringOfNat_length_one[of m] stringOfNat_length_one[of n] by simp
  show ?case
  proof (cases "m < 10")
    case True
    with len md show ?thesis by simp
  next
    case False
    with len have n: "\<not> n < 10" by simp
    from "1.prems" have "butlast (stringOfNat m) = butlast (stringOfNat n)" by simp
    with False n have "stringOfNat (m div 10) = stringOfNat (n div 10)"
      by (simp add: stringOfNat_butlast)
    with "1.IH" False have "m div 10 = n div 10" by blast
    with md show ?thesis by (metis div_mult_mod_eq)
  qed
qed

lemma stringOfNat_no_dot: "CHR ''.'' \<notin> set (stringOfNat n)"
proof (induction n rule: stringOfNat.induct)
  case (1 n)
  show ?case
  proof (cases "n < 10")
    case True
    then show ?thesis
      by (subst stringOfNat.simps) (simp add: digitChar_not_dot[symmetric])
  next
    case False
    with "1.IH" show ?thesis
      by (subst stringOfNat.simps) (simp add: digitChar_not_dot[symmetric])
  qed
qed

text \<open>Two calls of \<open>generateUID\<close> give the same identifier only if they read the same
  clock value and the same random number.\<close>

lemma generateUID_eq_iff:
  "fst (generateUID env j) = fst (generateUID env k) \<longleftrightarrow> uidDraw env j = uidDraw env k"
proof -
  have "stringOfNat (dateNow env j) @ CHR ''.'' # stringOfNat (mathRandom env j)
          = stringOfNat (dateNow env k) @ CHR ''.'' # stringOfNat (mathRandom env k)
        \<longleftrightarrow> stringOfNat (dateNow env j) = stringOfNat (dateNow env k) \<and>
            stringOfNat (mathRandom env j) = stringOfNat (mathRandom env k)"
    by (rule append_Cons_eq_iff) (rule stringOfNat_no_dot)+
  then show ?thesis
    by (auto simp: generateUID_def uidDraw_def dest: stringOfNat_inj)
qed

lemma generateUID_inj:
  assumes "inj (uidDraw env)"
  shows "inj (\<lambda>k. fst (generateUID env k))"
  using assms by (auto simp: inj_def generateUID_eq_iff)

lemma generateUID_snd [simp]: "snd (generateUID env k) = Suc k"
  by (simp add: generateUID_def)

lemma generateUID_not_Nil: "fst (generateUID env k) \<noteq> []"
  by (simp add: generateUID_def)

section \<open>Runs of the two writers\<close>

subsection \<open>The loop\<close>

text \<open>
  A run that returns made one encoder call per index, in order; \<open>ks\<close> lists the
  \<open>generateUID\<close> counts after each iteration, which grow.
\<close>

lemma forSlices_success:
  assumes step: "\<And>i st f st'. body i st = (Inr f, st') \<Longrightarrow>
            uidCalls st < uidCalls st' \<and>
            (\<exists>c. encoderCalls st' = encoderCalls st @ [c] \<and> P i (uidCalls st') c f)"
    and run: "forSlices body idxs acc st = (Inr files, st')"
  shows "\<exists>cs fs ks. encoderCalls st' = encoderCalls st @ cs \<and> files = acc @ fs \<and>
           length cs = length idxs \<and> length fs = length idxs \<and> length ks = length idxs \<and>
           sorted_wrt (<) ks \<and> (\<forall>k\<in>set ks. uidCalls st < k) \<and>
           (\<forall>j<length idxs. P (idxs ! j) (ks ! j) (cs ! j) (fs ! j))"
  using run
proof (induction idxs arbitrary: acc st)
  case Nil
  then show ?case by simp
next
  case (Cons i rest)
  obtain r st1 where b: "body i st = (r, st1)" by (cases "body i st")
  with Cons.prems obtain f where r: "r = Inr f"
    and rec: "forSlices body rest (acc @ [f]) st1 = (Inr files, st')"
    by (cases r) auto
  from step[OF b[unfolded r]] obtain c where lt: "uidCalls st < uidCalls st1"
    and e: "encoderCalls st1 = encoderCalls st @ [c]" and p: "P i (uidCalls st1) c f"
    by blast
  from Cons.IH[OF rec] obtain cs fs ks where
    1: "encoderCalls st' = encoderCalls st1 @ cs" and 2: "files = (acc @ [f]) @ fs" and
    3: "length cs = length rest" "length fs = length rest" "length ks = length rest" and
    4: "sorted_wrt (<) ks" and 5: "\<forall>k\<in>set ks. uidCalls st1 < k" and
    6: "\<forall>j<length rest. P (rest ! j) (ks ! j) (cs ! j) (fs ! j)"
    by blast
  have a: "encoderCalls st' = encoderCalls st @ (c # cs)" using 1 e by simp
  have b': "files = acc @ (f # fs)" using 2 by simp
  have s: "sorted_wrt (<) (uidCalls st1 # ks)" using 4 5 by simp
  have g: "\<forall>k\<in>set (uidCalls st1 # ks). uidCalls st < k" using lt 5 by auto
  have q: "\<forall>j<length (i # rest).
      P ((i # rest) ! j) ((uidCalls st1 # ks) ! j) ((c # cs) ! j) ((f # fs) ! j)"
  proof (intro allI impI)
    fix j assume "j < length (i # rest)"
    then show "P ((i # rest) ! j) ((uidCalls st1 # ks) ! j) ((c # cs) ! j) ((f # fs) ! j)"
      using p 6 by (cases j) simp_all
  qed
  show ?case
    using a b' 3 s g q
    by (intro exI[of _ "c # cs"] exI[of _ "f # fs"] exI[of _ "uidCalls st1 # ks"]) simp
qed

text \<open>The loop returns when its body never throws.\<close>

lemma forSlices_total:
  assumes "\<And>i st. \<exists>f st'. body i st = (Inr f, st')"
  shows "\<exists>files st'. forSlices body idxs acc st = (Inr files, st')"
proof (induction idxs arbitrary: acc st)
  case Nil
  show ?case by simp
next
  case (Cons i rest)
  from assms obtain f st1 where "body i st = (Inr f, st1)" by blast
  with Cons.IH[of "acc @ [f]" st1] show ?case by simp
qed

lemma distinct_uids:
  assumes "sorted_wrt (<) ks" and "\<forall>k\<in>set ks. 0 < k" and "inj g"
  shows "distinct (map (\<lambda>k. g (k - Suc 0)) (ks :: nat list))"
proof -
  have "distinct ks" using assms(1) by (simp add: strict_sorted_iff)
  moreover have "inj_on (\<lambda>k. g (k - Suc 0)) (set ks)"
  proof (rule inj_onI)
    fix x y assume "x \<in> set ks" "y \<in> set ks" "g (x - Suc 0) = g (y - Suc 0)"
    with assms(2,3) have "x - Suc 0 = y - Suc 0" "0 < x" "0 < y" by (auto dest: injD)
    then show "x = y" by simp
  qed
  ultimately show ?thesis by (simp add: distinct_map)
qed

subsection \<open>One iteration\<close>

lemma seriesSliceBody_Inr:
  assumes "seriesSliceBody env img opts pat compress n i st = (Inr f, st')"
  shows "uidCalls st < uidCalls st' \<and>
     (\<exists>c. encoderCalls st' = encoderCalls st @ [c] \<and>
        (sliceIndex f = i \<and>
         gdcmTag ''0008|0018'' c = Some (fst (generateUID env (uidCalls st' - Suc 0))) \<and>
         gdcmTag ''0020|0013'' c =
           Some (stringOfInt (int i +
             (case instanceNumberStart opts of
                None \<Rightarrow> 1
              | Some x \<Rightarrow> if x \<noteq> 0 then x else 1))) \<and>
         (truthyStr (seriesInstanceUID opts) \<or> baseMap (metadata img) ''0020|000e'' \<noteq> None \<longrightarrow>
            gdcmTag ''0020|000e'' c =
              Some (case baseMap (metadata img) ''0020|000e'' of
                      None \<Rightarrow> the (seriesInstanceUID opts)
                    | Some v \<Rightarrow> v))))"
proof -
  from assms obtain s where ex: "extractSlice img (int i) = Inr s"
    by (auto simp: seriesSliceBody_def split: sum.splits)
  define cd where "cd = createDicomMetadataForSlice env (metadata img) i n s opts (uidCalls st)"
  define c where "c = (s \<lparr> metadata := Some (fst cd) \<rparr>,
      replaceFirst ''%04d'' (padStart4 (stringOfNat i)) pat, compress)"
  from assms ex have st': "st' = st \<lparr> uidCalls := snd cd, encoderCalls := encoderCalls st @ [c] \<rparr>"
    and f: "sliceIndex f = i"
    by (auto simp: seriesSliceBody_def Let_def case_prod_beta cd_def c_def split: sum.splits)
  have tag: "\<And>t. gdcmTag t c = fst cd t" by (simp add: gdcmTag_def c_def)
  have k: "uidCalls st' = snd cd" and e: "encoderCalls st' = encoderCalls st @ [c]"
    using st' by simp_all
  have lt: "uidCalls st < uidCalls st'"
    unfolding k cd_def createDicomMetadataForSlice_tags by simp
  have sop: "gdcmTag ''0008|0018'' c = Some (fst (generateUID env (uidCalls st' - Suc 0)))"
    unfolding k tag unfolding cd_def createDicomMetadataForSlice_tags by simp
  have inst: "gdcmTag ''0020|0013'' c =
           Some (stringOfInt (int i +
             (case instanceNumberStart opts of
                None \<Rightarrow> 1
              | Some x \<Rightarrow> if x \<noteq> 0 then x else 1)))"
    unfolding tag cd_def createDicomMetadataForSlice_tags by (rule refl)
  have ser: "truthyStr (seriesInstanceUID opts) \<or> baseMap (metadata img) ''0020|000e'' \<noteq> None \<longrightarrow>
            gdcmTag ''0020|000e'' c =
              Some (case baseMap (metadata img) ''0020|000e'' of
                      None \<Rightarrow> the (seriesInstanceUID opts)
                    | Some v \<Rightarrow> v)"
    unfolding tag cd_def createDicomMetadataForSlice_tags by auto
  from lt e f sop inst ser show ?thesis by blast
qed

lemma seriesSliceBody_total:
  assumes "data img = TypedArray xs" and "\<And>s f c. \<not> isl (gdcmWriteImage env s f c)"
  shows "\<exists>f st'. seriesSliceBody env img opts pat compress n i st = (Inr f, st')"
proof -
  from assms(1) obtain s where ex: "extractSlice img (int i) = Inr s"
    using extractSlice_TypedArray_Inr by blast
  show ?thesis
    unfolding seriesSliceBody_def ex Let_def case_prod_beta
    using assms(2) by (auto simp: isl_def split: sum.splits)
qed

lemma dcmjsSliceBody_Inr:
  assumes "dcmjsSliceBody env img pat descr snum start modal study series sdate stime i st
             = (Inr f, st')"
  shows "uidCalls st < uidCalls st' \<and>
     (\<exists>c. encoderCalls st' = encoderCalls st @ [c] \<and>
        (sliceIndex f = i \<and>
         dcmjsTag ''00080018'' c =
           Some (''UI'', [VStr (fst (generateUID env (uidCalls st' - Suc 0)))]) \<and>
         dcmjsTag ''00200013'' c = Some (''IS'', [VInt (int i + start)]) \<and>
         dcmjsTag ''0020000E'' c = Some (''UI'', [VStr series])))"
proof -
  from assms obtain s where ex: "extractSlice img (int i) = Inr s"
    by (auto simp: dcmjsSliceBody_def split: sum.splits)
  define md where "md =
     \<lparr> mdSeriesInstanceUID = series, sopInstanceUID = fst (generateUID env (uidCalls st)),
       instanceNumber = int i + start,
       imagePosition = [numAt (origin s) 0, numAt (origin s) 1, zPosition s],
       sliceLocation = zPosition s,
       mdSeriesDescription = descr, mdSeriesNumber = snum, mdModality = modal,
       studyInstanceUID = study, studyDate = sdate, studyTime = stime \<rparr>"
  from assms ex have st': "st' = st \<lparr> uidCalls := Suc (uidCalls st),
        encoderCalls := encoderCalls st @ [(s, md)] \<rparr>"
    and f: "sliceIndex f = i" and w: "\<not> isl (writeDicomSlice env s md)"
    by (auto simp: dcmjsSliceBody_def Let_def case_prod_beta md_def split: sum.splits)
  from w obtain ds where ds: "dicomDataset s md = Inr ds"
    by (auto simp: writeDicomSlice_def split: sum.splits)
  have tag: "\<And>t. dcmjsTag t (s, md) = map_of ds t" by (simp add: dcmjsTag_def ds)
  have k: "uidCalls st' = Suc (uidCalls st)"
    and e: "encoderCalls st' = encoderCalls st @ [(s, md)]"
    using st' by simp_all
  have sop: "dcmjsTag ''00080018'' (s, md) =
           Some (''UI'', [VStr (fst (generateUID env (uidCalls st' - Suc 0)))])"
    unfolding tag dicomDataset_run_entries[OF ds] k by (simp add: md_def)
  have inst: "dcmjsTag ''00200013'' (s, md) = Some (''IS'', [VInt (int i + start)])"
    unfolding tag dicomDataset_run_entries[OF ds] by (simp add: md_def)
  have ser: "dcmjsTag ''0020000E'' (s, md) = Some (''UI'', [VStr series])"
    unfolding tag dicomDataset_run_entries[OF ds] by (simp add: md_def)
  from k e f sop inst ser show ?thesis by auto
qed

lemma dcmjsSliceBody_total:
  assumes "data img = TypedArray xs" and "\<And>ds. \<not> isl (dcmjsWrite env ds)"
  shows "\<exists>f st'. dcmjsSliceBody env img pat descr snum start modal study series sdate stime i st
             = (Inr f, st')"
proof -
  from assms(1) obtain s where ex: "extractSlice img (int i) = Inr s"
    using extractSlice_TypedArray_Inr by blast
  from extractSlice_TypedArray_eq[of img xs] assms(1) ex have d: "data s \<noteq> NoData"
    by (auto simp: extractSlice_def Let_def split: sum.splits)
  have "\<And>md. \<not> isl (writeDicomSlice env s md)"
  proof -
    fix md
    from dicomDataset_Inr[OF d] obtain ds where "dicomDataset s md = Inr ds" by blast
    with assms(2) show "\<not> isl (writeDicomSlice env s md)"
      by (simp add: writeDicomSlice_def)
  qed
  then show ?thesis
    unfolding dcmjsSliceBody_def ex Let_def case_prod_beta
    by (auto simp: isl_def split: sum.splits)
qed

subsection \<open>Whole runs\<close>

lemma writeImageAsDicomSeries_eq:
  assumes "dimension (imageType img) = 3"
  shows "writeImageAsDicomSeries env img opts st =
     forSlices
       (seriesSliceBody env img
          \<lparr> seriesDescription =
              Some (case seriesDescription opts of
                      None \<Rightarrow> ''Medical Image Series'' | Some d \<Rightarrow> d),
            seriesNumber = Some (case seriesNumber opts of None \<Rightarrow> 1 | Some n \<Rightarrow> n),
            instanceNumberStart =
              Some (case instanceNumberStart opts of None \<Rightarrow> 1 | Some s \<Rightarrow> s),
            modality = Some (case modality opts of None \<Rightarrow> ''OT'' | Some m \<Rightarrow> m),
            seriesInstanceUID =
              Some (case seriesInstanceUID opts of
                      None \<Rightarrow> fst (generateUID env (uidCalls st)) | Some u \<Rightarrow> u) \<rparr>
          (case fileNamePattern opts of None \<Rightarrow> ''slice_%04d.dcm'' | Some p \<Rightarrow> p)
          (case useCompression opts of None \<Rightarrow> False | Some c \<Rightarrow> c)
          (sliceCount img))
       [0..<sliceCount img] []
       (st \<lparr> uidCalls := (case seriesInstanceUID opts of
                             None \<Rightarrow> Suc (uidCalls st) | Some u \<Rightarrow> uidCalls st) \<rparr>)"
  using assms
  by (cases "seriesInstanceUID opts")
     (simp_all add: writeImageAsDicomSeries_def Let_def case_prod_beta sliceCount_def)

lemma writeImageAsDicomSeriesWithDcmjs_eq:
  "writeImageAsDicomSeriesWithDcmjs env img opts st =
     forSlices
       (dcmjsSliceBody env img
          (case fileNamePattern opts of None \<Rightarrow> ''slice_%04d.dcm'' | Some p \<Rightarrow> p)
          (case seriesDescription opts of None \<Rightarrow> ''Medical Image Series'' | Some d \<Rightarrow> d)
          (case seriesNumber opts of None \<Rightarrow> 1 | Some n \<Rightarrow> n)
          (case instanceNumberStart opts of None \<Rightarrow> 1 | Some s \<Rightarrow> s)
          (case modality opts of None \<Rightarrow> ''OT'' | Some m \<Rightarrow> m)
          (fst (generateUID env (uidCalls st)))
          (fst (generateUID env (Suc (uidCalls st))))
          (filter (\<lambda>c. c \<noteq> CHR ''-'') (take 10 (toISOString env)))
          (filter (\<lambda>c. c \<noteq> CHR '':'') (take 8 (toTimeString env))))
       [0..<sliceCount img] []
       (st \<lparr> uidCalls := Suc (Suc (uidCalls st)) \<rparr>)"
  by (simp add: writeImageAsDicomSeriesWithDcmjs_def Let_def case_prod_beta sliceCount_def)

text \<open>The dimension check comes first: nothing is generated, extracted or encoded.\<close>

lemma writeImageAsDicomSeries_not_3D:
  assumes "dimension (imageType img) \<noteq> 3"
  shows "writeImageAsDicomSeries env img opts st = (Inl Error_InputImageMustBe3D, st)"
  using assms by (simp add: writeImageAsDicomSeries_def)

lemma map_eq_by_nth:
  assumes "length xs = length ys" and "\<And>j. j < length xs \<Longrightarrow> f (xs ! j) = g (ys ! j)"
  shows "map f xs = map g ys"
  using assms by (simp add: list_eq_iff_nth_eq)

text \<open>What a run of \<open>writeImageAsDicomSeries\<close> that returns has handed to the encoder.\<close>

lemma writeImageAsDicomSeries_run:
  assumes ok: "\<not> isl (fst (writeImageAsDicomSeries env img opts st))"
  shows "\<exists>cs ks. encoderCalls (snd (writeImageAsDicomSeries env img opts st))
                   = encoderCalls st @ cs \<and>
           length cs = sliceCount img \<and> length ks = length cs \<and>
           sorted_wrt (<) ks \<and> (\<forall>k\<in>set ks. 0 < k) \<and>
           map (gdcmTag ''0008|0018'') cs = map (\<lambda>k. Some (fst (generateUID env (k - Suc 0)))) ks \<and>
           map (gdcmTag ''0020|0013'') cs =
             map (\<lambda>j. Some (stringOfInt (int j +
                    (case instanceNumberStart opts of
                       None \<Rightarrow> 1
                     | Some x \<Rightarrow> if x \<noteq> 0 then x else 1)))) [0..<length cs] \<and>
           (seriesInstanceUID opts \<noteq> Some [] \<or> baseMap (metadata img) ''0020|000e'' \<noteq> None \<longrightarrow>
              map (gdcmTag ''0020|000e'') cs =
                replicate (length cs)
                  (Some (case baseMap (metadata img) ''0020|000e'' of
                           None \<Rightarrow> (case seriesInstanceUID opts of
                                      None \<Rightarrow> fst (generateUID env (uidCalls st))
                                    | Some u \<Rightarrow> u)
                         | Some v \<Rightarrow> v)))"
proof -
  have d3: "dimension (imageType img) = 3"
    using ok by (rule contrapos_np) (simp add: writeImageAsDicomSeries_not_3D)
  define o' :: slice_options where "o' =
          \<lparr> seriesDescription =
              Some (case seriesDescription opts of
                      None \<Rightarrow> ''Medical Image Series'' | Some d \<Rightarrow> d),
            seriesNumber = Some (case seriesNumber opts of None \<Rightarrow> 1 | Some n \<Rightarrow> n),
            instanceNumberStart =
              Some (case instanceNumberStart opts of None \<Rightarrow> 1 | Some s \<Rightarrow> s),
            modality = Some (case modality opts of None \<Rightarrow> ''OT'' | Some m \<Rightarrow> m),
            seriesInstanceUID =
              Some (case seriesInstanceUID opts of
                      None \<Rightarrow> fst (generateUID env (uidCalls st)) | Some u \<Rightarrow> u) \<rparr>"
  define body where "body = seriesSliceBody env img o'
          (case fileNamePattern opts of None \<Rightarrow> ''slice_%04d.dcm'' | Some p \<Rightarrow> p)
          (case useCompression opts of None \<Rightarrow> False | Some c \<Rightarrow> c)
          (sliceCount img)"
  define st1 where "st1 = st \<lparr> uidCalls := (case seriesInstanceUID opts of
                             None \<Rightarrow> Suc (uidCalls st) | Some u \<Rightarrow> uidCalls st) \<rparr>"
  define P where "P = (\<lambda>i k (c :: 'a gdcm_call) (f :: written_file).
         sliceIndex f = i \<and>
         gdcmTag ''0008|0018'' c = Some (fst (generateUID env (k - Suc 0))) \<and>
         gdcmTag ''0020|0013'' c =
           Some (stringOfInt (int i +
             (case instanceNumberStart o' of
                None \<Rightarrow> 1
              | Some x \<Rightarrow> if x \<noteq> 0 then x else 1))) \<and>
         (truthyStr (seriesInstanceUID o') \<or> baseMap (metadata img) ''0020|000e'' \<noteq> None \<longrightarrow>
            gdcmTag ''0020|000e'' c =
              Some (case baseMap (metadata img) ''0020|000e'' of
                      None \<Rightarrow> the (seriesInstanceUID o')
                    | Some v \<Rightarrow> v)))"
  have run: "writeImageAsDicomSeries env img opts st
      = forSlices body [0..<sliceCount img] [] st1"
    unfolding body_def o'_def st1_def by (rule writeImageAsDicomSeries_eq[OF d3])
  obtain r st' where rs: "forSlices body [0..<sliceCount img] [] st1 = (r, st')"
    by (cases "forSlices body [0..<sliceCount img] [] st1")
  with ok run obtain files where r: "r = Inr files" by (cases r) simp_all
  have step: "\<And>i s f s'. body i s = (Inr f, s') \<Longrightarrow>
            uidCalls s < uidCalls s' \<and>
            (\<exists>c. encoderCalls s' = encoderCalls s @ [c] \<and> P i (uidCalls s') c f)"
    unfolding body_def P_def by (rule seriesSliceBody_Inr)
  from forSlices_success[of body P, OF step rs[unfolded r]]
  obtain cs fs ks where
    1: "encoderCalls st' = encoderCalls st1 @ cs" and
    3: "length cs = sliceCount img" "length ks = sliceCount img" and
    4: "sorted_wrt (<) ks" and 5: "\<forall>k\<in>set ks. uidCalls st1 < k" and
    6: "\<forall>j<sliceCount img. P j (ks ! j) (cs ! j) (fs ! j)"
    by auto
  have "snd (writeImageAsDicomSeries env img opts st) = st'" by (simp add: run rs)
  moreover have "encoderCalls st1 = encoderCalls st" by (simp add: st1_def)
  ultimately have e:
    "encoderCalls (snd (writeImageAsDicomSeries env img opts st)) = encoderCalls st @ cs"
    using 1 by simp
  have pos: "\<forall>k\<in>set ks. 0 < k" using 5 by auto
  have start: "(case instanceNumberStart o' of None \<Rightarrow> 1 | Some x \<Rightarrow> if x \<noteq> 0 then x else 1)
      = (case instanceNumberStart opts of None \<Rightarrow> 1 | Some x \<Rightarrow> if x \<noteq> 0 then x else (1::int))"
    by (cases "instanceNumberStart opts") (simp_all add: o'_def)
  have sop: "map (gdcmTag ''0008|0018'') cs
      = map (\<lambda>k. Some (fst (generateUID env (k - Suc 0)))) ks"
    using 3 6 by (intro map_eq_by_nth) (simp_all add: P_def)
  have inst: "map (gdcmTag ''0020|0013'') cs =
             map (\<lambda>j. Some (stringOfInt (int j +
                    (case instanceNumberStart opts of
                       None \<Rightarrow> 1
                     | Some x \<Rightarrow> if x \<noteq> 0 then x else 1)))) [0..<length cs]"
    using 3 6 by (intro map_eq_by_nth) (simp_all add: P_def start)
  have ser: "map (gdcmTag ''0020|000e'') cs =
                replicate (length cs)
                  (Some (case baseMap (metadata img) ''0020|000e'' of
                           None \<Rightarrow> (case seriesInstanceUID opts of
                                      None \<Rightarrow> fst (generateUID env (uidCalls st))
                                    | Some u \<Rightarrow> u)
                         | Some v \<Rightarrow> v))"
    if c: "seriesInstanceUID opts \<noteq> Some [] \<or> baseMap (metadata img) ''0020|000e'' \<noteq> None"
  proof -
    have t: "truthyStr (seriesInstanceUID o') \<or> baseMap (metadata img) ''0020|000e'' \<noteq> None"
      using c by (cases "seriesInstanceUID opts")
        (auto simp: o'_def truthyStr_def generateUID_not_Nil)
    have u: "the (seriesInstanceUID o') = (case seriesInstanceUID opts of
                                      None \<Rightarrow> fst (generateUID env (uidCalls st))
                                    | Some u \<Rightarrow> u)"
      by (simp add: o'_def)
    have "\<forall>j<length cs. gdcmTag ''0020|000e'' (cs ! j) =
        Some (case baseMap (metadata img) ''0020|000e'' of
                None \<Rightarrow> (case seriesInstanceUID opts of
                           None \<Rightarrow> fst (generateUID env (uidCalls st))
                         | Some u \<Rightarrow> u)
              | Some v \<Rightarrow> v)"
      using 3 6 t unfolding P_def u by auto
    then show ?thesis by (simp add: list_eq_iff_nth_eq)
  qed
  from e 3 4 pos sop inst ser show ?thesis
    by (intro exI[of _ cs] exI[of _ ks]) simp
qed

text \<open>What a run of \<open>writeImageAsDicomSeriesWithDcmjs\<close> that returns has handed to
  \<open>writeDicomSlice\<close>.\<close>

lemma writeImageAsDicomSeriesWithDcmjs_run:
  assumes ok: "\<not> isl (fst (writeImageAsDicomSeriesWithDcmjs env img opts st))"
  shows "\<exists>cs ks. encoderCalls (snd (writeImageAsDicomSeriesWithDcmjs env img opts st))
                   = encoderCalls st @ cs \<and>
           length cs = sliceCount img \<and> length ks = length cs \<and>
           sorted_wrt (<) ks \<and> (\<forall>k\<in>set ks. 0 < k) \<and>
           map (dcmjsTag ''00080018'') cs =
             map (\<lambda>k. Some (''UI'', [VStr (fst (generateUID env (k - Suc 0)))])) ks \<and>
           map (dcmjsTag ''00200013'') cs =
             map (\<lambda>j. Some (''IS'', [VInt (int j +
                    (case instanceNumberStart opts of None \<Rightarrow> 1 | Some x \<Rightarrow> x))]))
               [0..<length cs] \<and>
           map (dcmjsTag ''0020000E'') cs =
             replicate (length cs)
               (Some (''UI'', [VStr (fst (generateUID env (Suc (uidCalls st))))]))"
proof -
  define body where "body = dcmjsSliceBody env img
          (case fileNamePattern opts of None \<Rightarrow> ''slice_%04d.dcm'' | Some p \<Rightarrow> p)
          (case seriesDescription opts of None \<Rightarrow> ''Medical Image Series'' | Some d \<Rightarrow> d)
          (case seriesNumber opts of None \<Rightarrow> 1 | Some n \<Rightarrow> n)
          (case instanceNumberStart opts of None \<Rightarrow> 1 | Some s \<Rightarrow> s)
          (case modality opts of None \<Rightarrow> ''OT'' | Some m \<Rightarrow> m)
          (fst (generateUID env (uidCalls st)))
          (fst (generateUID env (Suc (uidCalls st))))
          (filter (\<lambda>c. c \<noteq> CHR ''-'') (take 10 (toISOString env)))
          (filter (\<lambda>c. c \<noteq> CHR '':'') (take 8 (toTimeString env)))"
  define st1 where "st1 = st \<lparr> uidCalls := Suc (Suc (uidCalls st)) \<rparr>"
  define P where "P = (\<lambda>i k (c :: 'a dcmjs_call) (f :: written_file).
         sliceIndex f = i \<and>
         dcmjsTag ''00080018'' c = Some (''UI'', [VStr (fst (generateUID env (k - Suc 0)))]) \<and>
         dcmjsTag ''00200013'' c =
           Some (''IS'', [VInt (int i +
              (case instanceNumberStart opts of None \<Rightarrow> 1 | Some s \<Rightarrow> s))]) \<and>
         dcmjsTag ''0020000E'' c =
           Some (''UI'', [VStr (fst (generateUID env (Suc (uidCalls st))))]))"
  have run: "writeImageAsDicomSeriesWithDcmjs env img opts st
      = forSlices body [0..<sliceCount img] [] st1"
    unfolding body_def st1_def by (rule writeImageAsDicomSeriesWithDcmjs_eq)
  obtain r st' where rs: "forSlices body [0..<sliceCount img] [] st1 = (r, st')"
    by (cases "forSlices body [0..<sliceCount img] [] st1")
  with ok run obtain files where r: "r = Inr files" by (cases r) simp_all
  have step: "\<And>i s f s'. body i s = (Inr f, s') \<Longrightarrow>
            uidCalls s < uidCalls s' \<and>
            (\<exists>c. encoderCalls s' = encoderCalls s @ [c] \<and> P i (uidCalls s') c f)"
    unfolding body_def P_def by (rule dcmjsSliceBody_Inr)
  from forSlices_success[of body P, OF step rs[unfolded r]]
  obtain cs fs ks where
    1: "encoderCalls st' = encoderCalls st1 @ cs" and
    3: "length cs = sliceCount img" "length ks = sliceCount img" and
    4: "sorted_wrt (<) ks" and 5: "\<forall>k\<in>set ks. uidCalls st1 < k" and
    6: "\<forall>j<sliceCount img. P j (ks ! j) (cs ! j) (fs ! j)"
    by auto
  have "snd (writeImageAsDicomSeriesWithDcmjs env img opts st) = st'" by (simp add: run rs)
  moreover have "encoderCalls st1 = encoderCalls st" by (simp add: st1_def)
  ultimately have e:
    "encoderCalls (snd (writeImageAsDicomSeriesWithDcmjs env img opts st)) = encoderCalls st @ cs"
    using 1 by simp
  have pos: "\<forall>k\<in>set ks. 0 < k" using 5 by auto
  have sop: "map (dcmjsTag ''00080018'') cs =
             map (\<lambda>k. Some (''UI'', [VStr (fst (generateUID env (k - Suc 0)))])) ks"
    using 3 6 by (intro map_eq_by_nth) (simp_all add: P_def)
  have inst: "map (dcmjsTag ''00200013'') cs =
             map (\<lambda>j. Some (''IS'', [VInt (int j +
                    (case instanceNumberStart opts of None \<Rightarrow> 1 | Some x \<Rightarrow> x))]))
               [0..<length cs]"
    using 3 6 by (intro map_eq_by_nth) (simp_all add: P_def)
  have ser: "map (dcmjsTag ''0020000E'') cs =
             replicate (length cs)
               (Some (''UI'', [VStr (fst (generateUID env (Suc (uidCalls st))))]))"
    using 3 6 by (simp add: list_eq_iff_nth_eq P_def)
  from e 3 4 pos sop inst ser show ?thesis
    by (intro exI[of _ cs] exI[of _ ks]) simp
qed

text \<open>Both writers return when the data is a typed array and the encoder never throws.\<close>

lemma writeImageAsDicomSeries_total:
  assumes "dimension (imageType img) = 3" and "data img = TypedArray xs"
    and "\<And>s f c. \<not> isl (gdcmWriteImage env s f c)"
  shows "\<not> isl (fst (writeImageAsDicomSeries env img opts st))"
proof -
  have "\<exists>files st'. writeImageAsDicomSeries env img opts st = (Inr files, st')"
    unfolding writeImageAsDicomSeries_eq[OF assms(1)]
    by (rule forSlices_total) (rule seriesSliceBody_total[OF assms(2,3)])
  then show ?thesis by auto
qed

lemma writeImageAsDicomSeriesWithDcmjs_total:
  assumes "data img = TypedArray xs" and "\<And>ds. \<not> isl (dcmjsWrite env ds)"
  shows "\<not> isl (fst (writeImageAsDicomSeriesWithDcmjs env img opts st))"
proof -
  have "\<exists>files st'. writeImageAsDicomSeriesWithDcmjs env img opts st = (Inr files, st')"
    unfolding writeImageAsDicomSeriesWithDcmjs_eq
    by (rule forSlices_total) (rule dcmjsSliceBody_total[OF assms])
  then show ?thesis by auto
qed

lemma map_replicateD:
  assumes "map f xs = replicate (length xs) v"
  shows "\<forall>x\<in>set xs. f x = v"
proof
  fix x assume "x \<in> set xs"
  then have "f x \<in> set (map f xs)" by simp
  with assms have "f x \<in> set (replicate (length xs) v)" by simp
  then show "f x = v" by simp
qed

lemma map_uptD:
  assumes "map f xs = map g [0..<length xs]" and "j < length xs"
  shows "f (xs ! j) = g j"
proof -
  have "f (xs ! j) = map f xs ! j" using assms(2) by simp
  also have "\<dots> = map g [0..<length xs] ! j" using assms(1) by simp
  also have "\<dots> = g j" using assms(2) by simp
  finally show ?thesis .
qed

lemma smallVolume_facts:
  "dimension (imageType smallVolume) = 3" "data smallVolume = TypedArray [10, 20]"
  "sliceCount smallVolume = 2"
  by (simp_all add: smallVolume_def exampleVolume_def sliceCount_def)

lemma exampleVolume_facts:
  "dimension (imageType exampleVolume) = 3" "sliceCount exampleVolume = 4"
  by (simp_all add: exampleVolume_def sliceCount_def)

lemma tickingEnv_encoders:
  "\<not> isl (gdcmWriteImage tickingEnv s f c)" "\<not> isl (dcmjsWrite tickingEnv ds)"
  "\<not> isl (gdcmWriteImage stuckEnv s f c)" "\<not> isl (dcmjsWrite stuckEnv ds)"
  by (simp_all add: tickingEnv_def stuckEnv_def)

lemma tickingEnv_inj: "inj (uidDraw tickingEnv)"
  by (simp add: inj_def uidDraw_def tickingEnv_def)

lemma stuckEnv_uid: "fst (generateUID stuckEnv k) = ''1.2.826.0.1.3680043.8.498.1000.42''"
  by (simp add: generateUID_def stuckEnv_def tickingEnv_def stringOfNat.simps digitChar_def)

lemma starts_empty: "encoderCalls gdcmStart = []" "encoderCalls dcmjsStart = []"
  by (simp_all add: gdcmStart_def dcmjsStart_def)

text \<open>
  C4, as the code has it. A run that returns has made one encoder call per slice. In
  \<open>writeImageAsDicomSeries\<close> all of them carry the same Series Instance UID when the
  caller's \<open>seriesInstanceUID\<close> is not the empty string or the image's metadata has
  the tag; in \<open>writeImageAsDicomSeriesWithDcmjs\<close> they always do. In both, the SOP
  Instance UIDs are pairwise distinct when no two calls of \<open>generateUID\<close> read the same
  pair of clock value and random number.
\<close>

theorem series_identifiers:
  "(\<not> isl (fst (writeImageAsDicomSeries env img opts st)) \<longrightarrow>
      (\<exists>cs. encoderCalls (snd (writeImageAsDicomSeries env img opts st)) = encoderCalls st @ cs \<and>
         length cs = sliceCount img \<and>
         (seriesInstanceUID opts \<noteq> Some [] \<or> baseMap (metadata img) ''0020|000e'' \<noteq> None \<longrightarrow>
            (\<exists>u. \<forall>c\<in>set cs. gdcmTag ''0020|000e'' c = Some u)) \<and>
         (inj (uidDraw env) \<longrightarrow> distinct (map (gdcmTag ''0008|0018'') cs)))) \<and>
   (\<not> isl (fst (writeImageAsDicomSeriesWithDcmjs env img opts st2)) \<longrightarrow>
      (\<exists>cs. encoderCalls (snd (writeImageAsDicomSeriesWithDcmjs env img opts st2))
               = encoderCalls st2 @ cs \<and>
         length cs = sliceCount img \<and>
         (\<exists>u. \<forall>c\<in>set cs. dcmjsTag ''0020000E'' c = Some (''UI'', [VStr u])) \<and>
         (inj (uidDraw env) \<longrightarrow> distinct (map (dcmjsTag ''00080018'') cs))))"
proof (intro conjI impI)
  assume "\<not> isl (fst (writeImageAsDicomSeries env img opts st))"
  from writeImageAsDicomSeries_run[OF this] obtain cs ks where
    e: "encoderCalls (snd (writeImageAsDicomSeries env img opts st)) = encoderCalls st @ cs"
    and l: "length cs = sliceCount img"
    and s: "sorted_wrt (<) ks" "\<forall>k\<in>set ks. 0 < k"
    and sop: "map (gdcmTag ''0008|0018'') cs
                = map (\<lambda>k. Some (fst (generateUID env (k - Suc 0)))) ks"
    and ser: "seriesInstanceUID opts \<noteq> Some [] \<or> baseMap (metadata img) ''0020|000e'' \<noteq> None \<longrightarrow>
              map (gdcmTag ''0020|000e'') cs =
                replicate (length cs)
                  (Some (case baseMap (metadata img) ''0020|000e'' of
                           None \<Rightarrow> (case seriesInstanceUID opts of
                                      None \<Rightarrow> fst (generateUID env (uidCalls st))
                                    | Some u \<Rightarrow> u)
                         | Some v \<Rightarrow> v))"
    by blast
  have a: "seriesInstanceUID opts \<noteq> Some [] \<or> baseMap (metadata img) ''0020|000e'' \<noteq> None \<longrightarrow>
            (\<exists>u. \<forall>c\<in>set cs. gdcmTag ''0020|000e'' c = Some u)"
    using ser by (blast dest: map_replicateD)
  have b: "inj (uidDraw env) \<longrightarrow> distinct (map (gdcmTag ''0008|0018'') cs)"
  proof
    assume "inj (uidDraw env)"
    then have "inj (\<lambda>k. Some (fst (generateUID env k)))"
      by (auto simp: inj_def generateUID_eq_iff)
    from distinct_uids[OF s this] show "distinct (map (gdcmTag ''0008|0018'') cs)"
      unfolding sop .
  qed
  from e l a b
  show "\<exists>cs. encoderCalls (snd (writeImageAsDicomSeries env img opts st)) = encoderCalls st @ cs \<and>
         length cs = sliceCount img \<and>
         (seriesInstanceUID opts \<noteq> Some [] \<or> baseMap (metadata img) ''0020|000e'' \<noteq> None \<longrightarrow>
            (\<exists>u. \<forall>c\<in>set cs. gdcmTag ''0020|000e'' c = Some u)) \<and>
         (inj (uidDraw env) \<longrightarrow> distinct (map (gdcmTag ''0008|0018'') cs))"
    by blast
next
  assume "\<not> isl (fst (writeImageAsDicomSeriesWithDcmjs env img opts st2))"
  from writeImageAsDicomSeriesWithDcmjs_run[OF this] obtain cs ks where
    e: "encoderCalls (snd (writeImageAsDicomSeriesWithDcmjs env img opts st2))
          = encoderCalls st2 @ cs"
    and l: "length cs = sliceCount img"
    and s: "sorted_wrt (<) ks" "\<forall>k\<in>set ks. 0 < k"
    and sop: "map (dcmjsTag ''00080018'') cs =
             map (\<lambda>k. Some (''UI'', [VStr (fst (generateUID env (k - Suc 0)))])) ks"
    and ser: "map (dcmjsTag ''0020000E'') cs =
             replicate (length cs)
               (Some (''UI'', [VStr (fst (generateUID env (Suc (uidCalls st2))))]))"
    by blast
  have a: "\<exists>u. \<forall>c\<in>set cs. dcmjsTag ''0020000E'' c = Some (''UI'', [VStr u])"
    using map_replicateD[OF ser] by blast
  have b: "inj (uidDraw env) \<longrightarrow> distinct (map (dcmjsTag ''00080018'') cs)"
  proof
    assume "inj (uidDraw env)"
    then have "inj (\<lambda>k. Some (''UI'', [VStr (fst (generateUID env k)) :: 'a dcm_value]))"
      by (auto simp: inj_def generateUID_eq_iff)
    from distinct_uids[OF s this] show "distinct (map (dcmjsTag ''00080018'') cs)"
      unfolding sop .
  qed
  from e l a b
  show "\<exists>cs. encoderCalls (snd (writeImageAsDicomSeriesWithDcmjs env img opts st2))
               = encoderCalls st2 @ cs \<and>
         length cs = sliceCount img \<and>
         (\<exists>u. \<forall>c\<in>set cs. dcmjsTag ''0020000E'' c = Some (''UI'', [VStr u])) \<and>
         (inj (uidDraw env) \<longrightarrow> distinct (map (dcmjsTag ''00080018'') cs))"
    by blast
qed

theorem series_identifiers_witness:
  "\<not> isl (fst (writeImageAsDicomSeries tickingEnv smallVolume noOptions gdcmStart)) \<and>
   seriesInstanceUID noOptions \<noteq> Some [] \<and> inj (uidDraw tickingEnv) \<and>
   (\<exists>cs. encoderCalls (snd (writeImageAsDicomSeries tickingEnv smallVolume noOptions gdcmStart))
            = cs \<and>
      length cs = 2 \<and> (\<exists>u. \<forall>c\<in>set cs. gdcmTag ''0020|000e'' c = Some u) \<and>
      distinct (map (gdcmTag ''0008|0018'') cs)) \<and>
   \<not> isl (fst (writeImageAsDicomSeriesWithDcmjs tickingEnv smallVolume noOptions dcmjsStart)) \<and>
   (\<exists>cs. encoderCalls
            (snd (writeImageAsDicomSeriesWithDcmjs tickingEnv smallVolume noOptions dcmjsStart))
            = cs \<and>
      length cs = 2 \<and> (\<exists>u. \<forall>c\<in>set cs. dcmjsTag ''0020000E'' c = Some (''UI'', [VStr u])) \<and>
      distinct (map (dcmjsTag ''00080018'') cs))"
proof -
  have g: "\<not> isl (fst (writeImageAsDicomSeries tickingEnv smallVolume noOptions gdcmStart))"
    by (rule writeImageAsDicomSeries_total[OF smallVolume_facts(1,2)])
       (rule tickingEnv_encoders)
  have d: "\<not> isl (fst (writeImageAsDicomSeriesWithDcmjs tickingEnv smallVolume noOptions
                        dcmjsStart))"
    by (rule writeImageAsDicomSeriesWithDcmjs_total[OF smallVolume_facts(2)])
       (rule tickingEnv_encoders)
  have u: "seriesInstanceUID noOptions \<noteq> Some []" by (simp add: noOptions_def)
  from series_identifiers[of tickingEnv smallVolume noOptions gdcmStart dcmjsStart]
    g d u tickingEnv_inj
  show ?thesis
    by (simp add: starts_empty smallVolume_facts)
qed

text \<open>
  C4 as stated fails: when the clock and the random source give the same values in
  two calls of \<open>generateUID\<close>, as in \<open>stuckEnv\<close>, the two slices of \<open>smallVolume\<close> get
  the same SOP Instance UID, in either writer.
\<close>

theorem series_identifiers_counterexample:
  "\<not> isl (fst (writeImageAsDicomSeries stuckEnv smallVolume noOptions gdcmStart)) \<and>
   map (gdcmTag ''0008|0018'')
     (encoderCalls (snd (writeImageAsDicomSeries stuckEnv smallVolume noOptions gdcmStart)))
     = [Some ''1.2.826.0.1.3680043.8.498.1000.42'',
        Some ''1.2.826.0.1.3680043.8.498.1000.42''] \<and>
   \<not> isl (fst (writeImageAsDicomSeriesWithDcmjs stuckEnv smallVolume noOptions dcmjsStart)) \<and>
   map (dcmjsTag ''00080018'')
     (encoderCalls
        (snd (writeImageAsDicomSeriesWithDcmjs stuckEnv smallVolume noOptions dcmjsStart)))
     = [Some (''UI'', [VStr ''1.2.826.0.1.3680043.8.498.1000.42'']),
        Some (''UI'', [VStr ''1.2.826.0.1.3680043.8.498.1000.42''])]"
proof -
  have g: "\<not> isl (fst (writeImageAsDicomSeries stuckEnv smallVolume noOptions gdcmStart))"
    by (rule writeImageAsDicomSeries_total[OF smallVolume_facts(1,2)])
       (rule tickingEnv_encoders)
  have d: "\<not> isl (fst (writeImageAsDicomSeriesWithDcmjs stuckEnv smallVolume noOptions
                        dcmjsStart))"
    by (rule writeImageAsDicomSeriesWithDcmjs_total[OF smallVolume_facts(2)])
       (rule tickingEnv_encoders)
  from writeImageAsDicomSeries_run[OF g] obtain cs ks where
    1: "encoderCalls (snd (writeImageAsDicomSeries stuckEnv smallVolume noOptions gdcmStart))
          = encoderCalls gdcmStart @ cs"
    and 2: "length cs = sliceCount smallVolume" "length ks = length cs"
    and 3: "map (gdcmTag ''0008|0018'') cs
                = map (\<lambda>k. Some (fst (generateUID stuckEnv (k - Suc 0)))) ks"
    by blast
  have a: "map (gdcmTag ''0008|0018'') cs
      = [Some ''1.2.826.0.1.3680043.8.498.1000.42'',
         Some ''1.2.826.0.1.3680043.8.498.1000.42'']"
    unfolding 3 stuckEnv_uid map_replicate_const using 2
    by (simp add: smallVolume_facts numeral_2_eq_2)
  from writeImageAsDicomSeriesWithDcmjs_run[OF d] obtain ds js where
    4: "encoderCalls
          (snd (writeImageAsDicomSeriesWithDcmjs stuckEnv smallVolume noOptions dcmjsStart))
          = encoderCalls dcmjsStart @ ds"
    and 5: "length ds = sliceCount smallVolume" "length js = length ds"
    and 6: "map (dcmjsTag ''00080018'') ds =
             map (\<lambda>k. Some (''UI'', [VStr (fst (generateUID stuckEnv (k - Suc 0)))])) js"
    by blast
  have b: "map (dcmjsTag ''00080018'') ds
      = [Some (''UI'', [VStr ''1.2.826.0.1.3680043.8.498.1000.42'']),
         Some (''UI'', [VStr ''1.2.826.0.1.3680043.8.498.1000.42''])]"
    unfolding 6 stuckEnv_uid map_replicate_const using 5
    by (simp add: smallVolume_facts numeral_2_eq_2)
  from g d a b show ?thesis unfolding 1 4 starts_empty append_Nil by blast
qed

lemma zeroStart: "instanceNumberStart zeroStartOptions = Some 0"
  by (simp add: zeroStartOptions_def noOptions_def)

lemma digits_1_to_4:
  "stringOfInt 1 = ''1''" "stringOfInt 2 = ''2''" "stringOfInt 3 = ''3''" "stringOfInt 4 = ''4''"
  by (simp_all add: stringOfInt_def stringOfNat_digit digitChar_def)

text \<open>
  C10. In \<open>writeImageAsDicomSeries\<close> an \<open>instanceNumberStart\<close> of 0, like a missing one,
  counts as 1: the slice with index \<open>j\<close> gets Instance Number \<open>j + 1\<close>. In
  \<open>writeImageAsDicomSeriesWithDcmjs\<close> an \<open>instanceNumberStart\<close> of 0 gives the slice
  with index \<open>j\<close> Instance Number \<open>j\<close>.
\<close>

theorem instance_number_start_zero:
  "(instanceNumberStart opts \<in> {None, Some 0} \<and>
    \<not> isl (fst (writeImageAsDicomSeries env img opts st)) \<longrightarrow>
      (\<exists>cs. encoderCalls (snd (writeImageAsDicomSeries env img opts st)) = encoderCalls st @ cs \<and>
         length cs = sliceCount img \<and>
         (\<forall>j<length cs. gdcmTag ''0020|0013'' (cs ! j) = Some (stringOfInt (int j + 1))))) \<and>
   (instanceNumberStart opts = Some 0 \<and>
    \<not> isl (fst (writeImageAsDicomSeriesWithDcmjs env img opts st2)) \<longrightarrow>
      (\<exists>cs. encoderCalls (snd (writeImageAsDicomSeriesWithDcmjs env img opts st2))
               = encoderCalls st2 @ cs \<and>
         length cs = sliceCount img \<and>
         (\<forall>j<length cs. dcmjsTag ''00200013'' (cs ! j) = Some (''IS'', [VInt (int j)]))))"
proof (intro conjI impI)
  assume a: "instanceNumberStart opts \<in> {None, Some 0} \<and>
    \<not> isl (fst (writeImageAsDicomSeries env img opts st))"
  then have z: "(case instanceNumberStart opts of None \<Rightarrow> 1 | Some x \<Rightarrow> if x \<noteq> 0 then x else 1)
      = (1::int)" by auto
  from a writeImageAsDicomSeries_run[of env img opts st] obtain cs where
    e: "encoderCalls (snd (writeImageAsDicomSeries env img opts st)) = encoderCalls st @ cs"
    and l: "length cs = sliceCount img"
    and i: "map (gdcmTag ''0020|0013'') cs =
             map (\<lambda>j. Some (stringOfInt (int j +
                    (case instanceNumberStart opts of
                       None \<Rightarrow> 1
                     | Some x \<Rightarrow> if x \<noteq> 0 then x else 1)))) [0..<length cs]"
    by blast
  have "\<forall>j<length cs. gdcmTag ''0020|0013'' (cs ! j) = Some (stringOfInt (int j + 1))"
    using map_uptD[OF i] unfolding z by blast
  with e l
  show "\<exists>cs. encoderCalls (snd (writeImageAsDicomSeries env img opts st)) = encoderCalls st @ cs \<and>
         length cs = sliceCount img \<and>
         (\<forall>j<length cs. gdcmTag ''0020|0013'' (cs ! j) = Some (stringOfInt (int j + 1)))"
    by blast
next
  assume a: "instanceNumberStart opts = Some 0 \<and>
    \<not> isl (fst (writeImageAsDicomSeriesWithDcmjs env img opts st2))"
  then have z: "(case instanceNumberStart opts of None \<Rightarrow> 1 | Some x \<Rightarrow> x) = (0::int)" by simp
  from a writeImageAsDicomSeriesWithDcmjs_run[of env img opts st2] obtain cs where
    e: "encoderCalls (snd (writeImageAsDicomSeriesWithDcmjs env img opts st2))
          = encoderCalls st2 @ cs"
    and l: "length cs = sliceCount img"
    and i: "map (dcmjsTag ''00200013'') cs =
             map (\<lambda>j. Some (''IS'', [VInt (int j +
                    (case instanceNumberStart opts of None \<Rightarrow> 1 | Some x \<Rightarrow> x))]))
               [0..<length cs]"
    by blast
  have "\<forall>j<length cs. dcmjsTag ''00200013'' (cs ! j) = Some (''IS'', [VInt (int j)])"
    using map_uptD[OF i] unfolding z by simp
  with e l
  show "\<exists>cs. encoderCalls (snd (writeImageAsDicomSeriesWithDcmjs env img opts st2))
               = encoderCalls st2 @ cs \<and>
         length cs = sliceCount img \<and>
         (\<forall>j<length cs. dcmjsTag ''00200013'' (cs ! j) = Some (''IS'', [VInt (int j)]))"
    by blast
qed

theorem instance_number_start_zero_witness:
  "instanceNumberStart zeroStartOptions \<in> {None, Some 0} \<and>
   \<not> isl (fst (writeImageAsDicomSeries tickingEnv smallVolume zeroStartOptions gdcmStart)) \<and>
   (\<exists>cs. encoderCalls
            (snd (writeImageAsDicomSeries tickingEnv smallVolume zeroStartOptions gdcmStart))
            = cs \<and>
      length cs = 2 \<and> gdcmTag ''0020|0013'' (cs ! 0) = Some ''1'' \<and>
      gdcmTag ''0020|0013'' (cs ! 1) = Some ''2'') \<and>
   instanceNumberStart zeroStartOptions = Some 0 \<and>
   \<not> isl (fst (writeImageAsDicomSeriesWithDcmjs tickingEnv smallVolume zeroStartOptions
                  dcmjsStart)) \<and>
   (\<exists>cs. encoderCalls
            (snd (writeImageAsDicomSeriesWithDcmjs tickingEnv smallVolume zeroStartOptions
                    dcmjsStart))
            = cs \<and>
      length cs = 2 \<and> dcmjsTag ''00200013'' (cs ! 0) = Some (''IS'', [VInt 0]) \<and>
      dcmjsTag ''00200013'' (cs ! 1) = Some (''IS'', [VInt 1]))"
proof -
  have g: "\<not> isl (fst (writeImageAsDicomSeries tickingEnv smallVolume zeroStartOptions
                        gdcmStart))"
    by (rule writeImageAsDicomSeries_total[OF smallVolume_facts(1,2)])
       (rule tickingEnv_encoders)
  have d: "\<not> isl (fst (writeImageAsDicomSeriesWithDcmjs tickingEnv smallVolume zeroStartOptions
                        dcmjsStart))"
    by (rule writeImageAsDicomSeriesWithDcmjs_total[OF smallVolume_facts(2)])
       (rule tickingEnv_encoders)
  note t = instance_number_start_zero[of zeroStartOptions tickingEnv smallVolume gdcmStart
      dcmjsStart]
  from t g zeroStart obtain cs where
    1: "encoderCalls
          (snd (writeImageAsDicomSeries tickingEnv smallVolume zeroStartOptions gdcmStart))
          = encoderCalls gdcmStart @ cs"
    and 2: "length cs = sliceCount smallVolume"
    and 3: "\<forall>j<length cs. gdcmTag ''0020|0013'' (cs ! j) = Some (stringOfInt (int j + 1))"
    by blast
  from t d zeroStart obtain ds where
    4: "encoderCalls
          (snd (writeImageAsDicomSeriesWithDcmjs tickingEnv smallVolume zeroStartOptions
                  dcmjsStart))
          = encoderCalls dcmjsStart @ ds"
    and 5: "length ds = sliceCount smallVolume"
    and 6: "\<forall>j<length ds. dcmjsTag ''00200013'' (ds ! j) = Some (''IS'', [VInt (int j)])"
    by blast
  have c2: "length cs = 2" and d2: "length ds = 2" using 2 5 by (simp_all add: smallVolume_facts)
  from 3 c2 have c0: "gdcmTag ''0020|0013'' (cs ! 0) = Some ''1''"
    and c1: "gdcmTag ''0020|0013'' (cs ! 1) = Some ''2''"
    using digits_1_to_4 by (auto simp: numeral_2_eq_2)
  from 6 d2 have d0: "dcmjsTag ''00200013'' (ds ! 0) = Some (''IS'', [VInt 0])"
    and d1: "dcmjsTag ''00200013'' (ds ! 1) = Some (''IS'', [VInt 1])"
    by (auto simp: numeral_2_eq_2)
  from g d zeroStart c2 d2 c0 c1 d0 d1 show ?thesis
    unfolding 1 4 starts_empty append_Nil by blast
qed

text \<open>
  C7 fails in \<open>writeImageAsDicomSeries\<close> at start 0: the four slices of \<open>exampleVolume\<close>
  get the Instance Numbers 1, 2, 3, 4, not 0, 1, 2, 3.
\<close>

theorem instance_numbers_from_zero:
  "instanceNumberStart zeroStartOptions = Some 0 \<and>
   \<not> isl (fst (writeImageAsDicomSeries tickingEnv exampleVolume zeroStartOptions gdcmStart)) \<and>
   map (gdcmTag ''0020|0013'')
     (encoderCalls
        (snd (writeImageAsDicomSeries tickingEnv exampleVolume zeroStartOptions gdcmStart)))
     = [Some ''1'', Some ''2'', Some ''3'', Some ''4'']"
proof -
  have g: "\<not> isl (fst (writeImageAsDicomSeries tickingEnv exampleVolume zeroStartOptions
                        gdcmStart))"
    by (rule writeImageAsDicomSeries_total[OF exampleVolume_facts(1) exampleVolume_data(1)])
       (rule tickingEnv_encoders)
  from writeImageAsDicomSeries_run[OF g] obtain cs where
    1: "encoderCalls
          (snd (writeImageAsDicomSeries tickingEnv exampleVolume zeroStartOptions gdcmStart))
          = encoderCalls gdcmStart @ cs"
    and 2: "length cs = sliceCount exampleVolume"
    and 3: "map (gdcmTag ''0020|0013'') cs =
             map (\<lambda>j. Some (stringOfInt (int j +
                    (case instanceNumberStart zeroStartOptions of
                       None \<Rightarrow> 1
                     | Some x \<Rightarrow> if x \<noteq> 0 then x else 1)))) [0..<length cs]"
    by blast
  have u: "[0..<4] = [0, 1, 2, 3]" by (simp add: upt_rec)
  have "map (gdcmTag ''0020|0013'') cs = [Some ''1'', Some ''2'', Some ''3'', Some ''4'']"
    unfolding 3 2 exampleVolume_facts u zeroStart using digits_1_to_4 by simp
  with g zeroStart show ?thesis unfolding 1 starts_empty append_Nil by blast
qed

text \<open>
  C3 fails in \<open>writeImageAsDicomSeriesWithDcmjs\<close>, which has no dimension check: given
  the two-dimensional \<open>flatImage\<close> it generates its two identifiers and returns an empty
  list, without an error. (\<open>writeImageAsDicomSeries\<close> does fail first, see
  \<open>writeImageAsDicomSeries_not_3D\<close>.)
\<close>

theorem writeImageAsDicomSeriesWithDcmjs_flat:
  "dimension (imageType flatImage) = 2 \<and>
   writeImageAsDicomSeries tickingEnv flatImage noOptions gdcmStart
     = (Inl Error_InputImageMustBe3D, gdcmStart) \<and>
   writeImageAsDicomSeriesWithDcmjs tickingEnv flatImage noOptions dcmjsStart
     = (Inr [], \<lparr> uidCalls = 2, encoderCalls = [] \<rparr>)"
proof -
  have d: "dimension (imageType flatImage) = 2" and n: "sliceCount flatImage = 0"
    by (simp_all add: flatImage_def sliceCount_def)
  from d have "writeImageAsDicomSeries tickingEnv flatImage noOptions gdcmStart
     = (Inl Error_InputImageMustBe3D, gdcmStart)"
    by (simp add: writeImageAsDicomSeries_not_3D)
  moreover have "writeImageAsDicomSeriesWithDcmjs tickingEnv flatImage noOptions dcmjsStart
     = (Inr [], \<lparr> uidCalls = 2, encoderCalls = [] \<rparr>)"
    unfolding writeImageAsDicomSeriesWithDcmjs_eq n by (simp add: dcmjsStart_def)
  ultimately show ?thesis using d by blast
qed

end
